theory Spec2Isabelle
  imports Complex_Main "HOL-Library.Sublist"
begin

section \<open>Data model\<close>

text \<open>
  The banking back end keeps its state in SQL tables behind SQLAlchemy models. A table is
  embedded as the list of its rows, a model class as a record and a Python enum as a
  datatype. Python's \<open>Decimal\<close> and \<open>float\<close> values, and the seconds of a
  \<open>datetime\<close> or of \<open>time.time()\<close>, are embedded as \<open>real\<close>; rounding is
  outside the embedding. Amounts are \<open>Decimal\<close> values (the \<open>Numeric\<close> columns and
  the \<open>condecimal\<close> field of the request body). Python refuses an arithmetic operator
  between a \<open>Decimal\<close> and a \<open>float\<close> with \<open>TypeError\<close>, and the model returns that
  error wherever the source applies one. A nullable column that the modelled code reads
  as an optional value is an \<open>option\<close>.
\<close>

datatype TransactionType =
  DEPOSIT | WITHDRAWAL | TRANSFER | PAYMENT | FEE | INTEREST | INVESTMENT | CRYPTO

datatype TransactionStatus =
  PENDING | COMPLETED | FAILED | CANCELLED | REVERSED | FLAGGED

datatype AccountStatus = ACTIVE | INACTIVE | FROZEN | CLOSED

record Account =
  acc_id :: int
  account_number :: string
  acc_user_id :: int
  acc_status :: AccountStatus
  balance :: real
  acc_currency :: string
  daily_transfer_limit :: real
  withdrawal_limit :: real

record Transaction =
  txn_id :: int
  reference_id :: string
  user_id :: int
  account_id :: int
  txn_type :: TransactionType
  status :: TransactionStatus
  amount :: real
  currency :: string
  recipient_account :: "string option"
  device_info :: "string \<rightharpoonup> string"
  risk_score :: real
  created_at :: real
  processed_at :: "real option"
  failure_reason :: "string option"

record AuthDevice =
  dev_user_id :: int
  device_id :: "string option"
  fingerprint :: "string option"
  last_used :: real

record db =
  accounts :: "Account list"
  transactions :: "Transaction list"
  auth_devices :: "AuthDevice list"

text \<open>
  Every raise site of the modelled code is one constructor. The comments give the HTTP
  status and detail of the source.
\<close>

datatype error =
    AccountNotFound            \<comment> \<open>404 "Account not found"\<close>
  | AccountNotActive           \<comment> \<open>400 "Account is not active"\<close>
  | WithdrawalLimitExceeded real     \<comment> \<open>400 "Amount exceeds withdrawal limit of ..."\<close>
  | DailyTransferLimitExceeded real  \<comment> \<open>400 "Amount exceeds daily transfer limit of ..."\<close>
  | InsufficientFunds          \<comment> \<open>400 "Insufficient funds"; \<open>ValueError("Insufficient funds")\<close> in the ledger\<close>
  | RecipientNotFound          \<comment> \<open>404 "Recipient account not found"\<close>
  | RecipientNotActive         \<comment> \<open>400 "Recipient account is not active"\<close>
  | TransactionNotFound        \<comment> \<open>404 "Transaction not found"\<close>
  | InvalidState               \<comment> \<open>400 "Only pending transactions can be cancelled"\<close>
  | FraudSuspected             \<comment> \<open>400 "Transaction flagged as potentially fraudulent"\<close>
  | ZeroDivisionError          \<comment> \<open>division by zero\<close>
  | TypeError                  \<comment> \<open>an arithmetic operator between a \<open>Decimal\<close> and a \<open>float\<close>\<close>
  | AttributeError             \<comment> \<open>access to an attribute that the object does not have\<close>

section \<open>Balance ledger: \<open>services/account.py\<close>\<close>

definition AccountService_get :: "db \<Rightarrow> int \<Rightarrow> Account option" where
  "AccountService_get d aid = find (\<lambda>a. acc_id a = aid) (accounts d)"

text \<open>
  The session hands out one object per row, so a mutation of \<open>account.balance\<close> followed
  by \<open>commit\<close> changes the row with that primary key.
\<close>

definition adjust_balance :: "db \<Rightarrow> int \<Rightarrow> real \<Rightarrow> db" where
  "adjust_balance d aid delta =
     d\<lparr>accounts := map (\<lambda>a. if acc_id a = aid then a\<lparr>balance := balance a + delta\<rparr> else a)
                        (accounts d)\<rparr>"

definition update_balance :: "db \<Rightarrow> int \<Rightarrow> real \<Rightarrow> string \<Rightarrow> db \<times> (error + Account)" where
  "update_balance d aid amt operation =
     (case AccountService_get d aid of
        None \<Rightarrow> (d, Inl AttributeError)
      | Some account \<Rightarrow>
          if operation = ''credit'' then
            (adjust_balance d aid amt, Inr (account\<lparr>balance := balance account + amt\<rparr>))
          else if operation = ''debit'' then
            (if balance account < amt then (d, Inl InsufficientFunds)
             else (adjust_balance d aid (- amt), Inr (account\<lparr>balance := balance account - amt\<rparr>)))
          else (d, Inr account))"

section \<open>Transaction orchestrator: \<open>services/transaction_service.py\<close>\<close>

text \<open>
  The fields of the request body that the orchestrator's control flow reads. Names that
  start with an underscore in the source lose it here.
\<close>

record TransactionCreate =
  tc_account_id :: int
  tc_amount :: real
  tc_type :: TransactionType
  tc_recipient_account :: "string option"

text \<open>
  \<open>today\<close> is \<open>datetime.now().date()\<close>, the first instant of the current day. The
  query selects by account, type and creation time only.
\<close>

definition validate_transaction_limits ::
  "db \<Rightarrow> real \<Rightarrow> Account \<Rightarrow> Transaction \<Rightarrow> error + unit" where
  "validate_transaction_limits d today account transaction =
     (if txn_type transaction = WITHDRAWAL \<and> amount transaction > withdrawal_limit account
      then Inl (WithdrawalLimitExceeded (withdrawal_limit account))
      else if txn_type transaction = TRANSFER then
        (let today_transfers =
               filter (\<lambda>t. account_id t = acc_id account \<and> txn_type t = TRANSFER
                            \<and> created_at t \<ge> today) (transactions d);
             total_transfers = sum_list (map amount today_transfers)
         in if total_transfers + amount transaction > daily_transfer_limit account
            then Inl (DailyTransferLimitExceeded (daily_transfer_limit account))
            else Inr ())
      else Inr ())"

text \<open>
  The settlement steps mutate the account objects of the session and the transaction
  object; the caller commits. A step returns the store with the mutated accounts and the
  mutated transaction, or the error it raised before mutating anything.
\<close>

definition process_withdrawal ::
  "db \<Rightarrow> real \<Rightarrow> Transaction \<Rightarrow> Account \<Rightarrow> error + (db \<times> Transaction)" where
  "process_withdrawal d now transaction account =
     (if balance account < amount transaction then Inl InsufficientFunds
      else Inr (adjust_balance d (acc_id account) (- amount transaction),
                transaction\<lparr>status := COMPLETED, processed_at := Some now\<rparr>))"

definition process_deposit ::
  "db \<Rightarrow> real \<Rightarrow> Transaction \<Rightarrow> Account \<Rightarrow> error + (db \<times> Transaction)" where
  "process_deposit d now transaction account =
     Inr (adjust_balance d (acc_id account) (amount transaction),
          transaction\<lparr>status := COMPLETED, processed_at := Some now\<rparr>)"

definition process_transfer ::
  "db \<Rightarrow> real \<Rightarrow> Transaction \<Rightarrow> Account \<Rightarrow> error + (db \<times> Transaction)" where
  "process_transfer d now transaction account =
     (if balance account < amount transaction then Inl InsufficientFunds
      else
        (case find (\<lambda>a. Some (account_number a) = recipient_account transaction) (accounts d) of
           None \<Rightarrow> Inl RecipientNotFound
         | Some recipient \<Rightarrow>
             if acc_status recipient \<noteq> ACTIVE then Inl RecipientNotActive
             else Inr (adjust_balance
                         (adjust_balance d (acc_id account) (- amount transaction))
                         (acc_id recipient) (amount transaction),
                       transaction\<lparr>status := COMPLETED, processed_at := Some now\<rparr>)))"

text \<open>
  \<open>new_id\<close> and \<open>ref\<close> are the primary key and the UUID the new row receives. A raised
  exception ends the request before \<open>commit\<close>, so the store is the one before the call.
\<close>

definition create_transaction ::
  "db \<Rightarrow> real \<Rightarrow> real \<Rightarrow> int \<Rightarrow> string \<Rightarrow> TransactionCreate \<Rightarrow> int \<Rightarrow> (string \<rightharpoonup> string)
     \<Rightarrow> db \<times> (error + Transaction)" where
  "create_transaction d now today new_id ref transaction_data uid dev_info =
     (case find (\<lambda>a. acc_id a = tc_account_id transaction_data \<and> acc_user_id a = uid)
                (accounts d) of
        None \<Rightarrow> (d, Inl AccountNotFound)
      | Some account \<Rightarrow>
          if acc_status account \<noteq> ACTIVE then (d, Inl AccountNotActive)
          else
            (let transaction =
                   \<lparr>txn_id = new_id, reference_id = ref, user_id = uid,
                    account_id = tc_account_id transaction_data,
                    txn_type = tc_type transaction_data, status = PENDING,
                    amount = tc_amount transaction_data, currency = acc_currency account,
                    recipient_account = tc_recipient_account transaction_data,
                    device_info = dev_info, risk_score = 0, created_at = now,
                    processed_at = None, failure_reason = None\<rparr>
             in case validate_transaction_limits d today account transaction of
                  Inl e \<Rightarrow> (d, Inl e)
                | Inr _ \<Rightarrow>
                    (case (if txn_type transaction = WITHDRAWAL
                             then process_withdrawal d now transaction account
                           else if txn_type transaction = DEPOSIT
                             then process_deposit d now transaction account
                           else if txn_type transaction = TRANSFER
                             then process_transfer d now transaction account
                           else Inr (d, transaction)) of
                       Inl e \<Rightarrow> (d, Inl e)
                     | Inr (d', transaction') \<Rightarrow>
                         (d'\<lparr>transactions := transactions d' @ [transaction']\<rparr>,
                          Inr transaction'))))"

definition get_transaction :: "db \<Rightarrow> string \<Rightarrow> int \<Rightarrow> error + Transaction" where
  "get_transaction d transaction_id uid =
     (case find (\<lambda>t. reference_id t = transaction_id \<and> user_id t = uid) (transactions d) of
        None \<Rightarrow> Inl TransactionNotFound
      | Some t \<Rightarrow> Inr t)"

definition cancel_transaction :: "db \<Rightarrow> string \<Rightarrow> int \<Rightarrow> db \<times> (error + Transaction)" where
  "cancel_transaction d transaction_id uid =
     (case get_transaction d transaction_id uid of
        Inl e \<Rightarrow> (d, Inl e)
      | Inr transaction \<Rightarrow>
          if status transaction \<noteq> PENDING then (d, Inl InvalidState)
          else
            (d\<lparr>transactions :=
                 map (\<lambda>t. if txn_id t = txn_id transaction then t\<lparr>status := CANCELLED\<rparr> else t)
                     (transactions d)\<rparr>,
             Inr (transaction\<lparr>status := CANCELLED\<rparr>)))"

section \<open>Settlement of a stored transaction: \<open>services/transaction.py\<close>\<close>

definition TransactionService_get :: "db \<Rightarrow> int \<Rightarrow> Transaction option" where
  "TransactionService_get d tid = find (\<lambda>t. txn_id t = tid) (transactions d)"

text \<open>
  \<open>str(e)\<close> for the two exceptions that \<open>update_balance\<close> raises: the \<open>ValueError\<close>
  of the funds check and the \<open>AttributeError\<close> of a missing account.
\<close>

fun str_of_error :: "error \<Rightarrow> string" where
  "str_of_error InsufficientFunds = ''Insufficient funds''"
| "str_of_error _ =
     CHR 0x27 # ''NoneType' object has no attribute 'balance'' @ [CHR 0x27]"

definition save_transaction :: "db \<Rightarrow> Transaction \<Rightarrow> db" where
  "save_transaction d transaction =
     d\<lparr>transactions := map (\<lambda>t. if txn_id t = txn_id transaction then transaction else t)
                            (transactions d)\<rparr>"

definition process_transaction :: "db \<Rightarrow> real \<Rightarrow> int \<Rightarrow> real \<Rightarrow> db \<times> (error + Transaction)" where
  "process_transaction d now tid rs =
     (case TransactionService_get d tid of
        None \<Rightarrow> (d, Inl AttributeError)
      | Some transaction \<Rightarrow>
          (let operation = (if txn_type transaction \<in> {WITHDRAWAL, TRANSFER, PAYMENT}
                            then ''debit'' else ''credit'')
           in case update_balance d (account_id transaction) (amount transaction) operation of
                (d', Inr _) \<Rightarrow>
                  (let transaction' = transaction\<lparr>status := COMPLETED,
                                                  processed_at := Some now, risk_score := rs\<rparr>
                   in (save_transaction d' transaction', Inr transaction'))
              | (d', Inl e) \<Rightarrow>
                  (let transaction' = transaction\<lparr>status := FAILED,
                                                  failure_reason := Some (str_of_error e)\<rparr>
                   in (save_transaction d' transaction', Inr transaction'))))"

section \<open>Risk scorer: \<open>services/fraud_detection.py\<close>\<close>

text \<open>
  \<open>now\<close> is \<open>datetime.utcnow()\<close>; a \<open>timedelta\<close> is its number of seconds.
\<close>

text \<open>
  An arithmetic operator between a \<open>Decimal\<close> and a \<open>float\<close>: Python raises
  \<open>TypeError\<close> for every pair of operands.
\<close>

definition decimal_pow_float :: "real \<Rightarrow> real \<Rightarrow> error + real" where
  "decimal_pow_float x y = Inl TypeError"

definition decimal_times_float :: "real \<Rightarrow> real \<Rightarrow> error + real" where
  "decimal_times_float x y = Inl TypeError"

text \<open>
  In \<open>_analyze_amount\<close> the candidate amount and the amounts of the history are
  \<open>Decimal\<close> values, so the mean, the maximum, the variance and the quotients are
  \<open>Decimal\<close> values too, and the constants \<open>0.5\<close>, \<open>0.8\<close> and \<open>0.2\<close> are floats.
  With one row \<open>z_score\<close> is the integer 0, which never exceeds 2.
\<close>

definition analyze_amount :: "real \<Rightarrow> Transaction list \<Rightarrow> error + real" where
  "analyze_amount amt history =
     (if history = [] then Inr 0.5
      else
        (let avg_amount = sum_list (map amount history) / real (length history);
             max_amount = Max (set (map amount history))
         in case (if length history > 1 then
                    (case decimal_pow_float
                            (sum_list (map (\<lambda>t. (amount t - avg_amount)\<^sup>2) history)
                               / (real (length history) - 1)) 0.5 of
                       Inl e \<Rightarrow> Inl e
                     | Inr std_dev \<Rightarrow>
                         Inr (if std_dev > 0 then (amt - avg_amount) / std_dev else 0))
                  else Inr 0) of
              Inl e \<Rightarrow> Inl e
            | Inr z_score \<Rightarrow>
                if amt > max_amount then
                  (if max_amount = 0 then Inl ZeroDivisionError
                   else (case decimal_times_float (amt / max_amount) 0.8 of
                           Inl e \<Rightarrow> Inl e
                         | Inr v \<Rightarrow> Inr (min 1 v)))
                else if z_score > 2 then
                  (case decimal_times_float z_score 0.2 of
                     Inl e \<Rightarrow> Inl e
                   | Inr v \<Rightarrow> Inr (min 1 v))
                else Inr 0))"

definition analyze_frequency :: "db \<Rightarrow> real \<Rightarrow> int \<Rightarrow> real" where
  "analyze_frequency d now uid =
     (let recent_count =
            length (filter (\<lambda>t. user_id t = uid \<and> created_at t \<ge> now - 3600) (transactions d));
          typical_count =
            real (length (filter (\<lambda>t. user_id t = uid \<and> created_at t \<ge> now - 7 * 86400)
                                 (transactions d))) / (24 * 7)
      in if typical_count = 0 then (if recent_count > 3 then 0.5 else 0)
         else min 1 (real recent_count / typical_count * 0.2))"

definition analyze_device :: "db \<Rightarrow> real \<Rightarrow> int \<Rightarrow> (string \<rightharpoonup> string) \<Rightarrow> real" where
  "analyze_device d now uid dev_info =
     (case find (\<lambda>k. dev_user_id k = uid \<and> device_id k = dev_info ''device_id'')
                (auth_devices d) of
        None \<Rightarrow> 0.8
      | Some known_device \<Rightarrow>
          if fingerprint known_device \<noteq> dev_info ''fingerprint'' then 0.9
          else if now - last_used known_device > 30 * 86400 then 0.4
          else 0)"

text \<open>The remainder of \<open>Decimal\<close>'s \<open>%\<close>: the quotient is truncated towards zero.\<close>

definition decimal_rem :: "real \<Rightarrow> real \<Rightarrow> real" where
  "decimal_rem x m =
     x - m * of_int (if 0 \<le> x / m then \<lfloor>x / m\<rfloor> else \<lceil>x / m\<rceil>)"

definition analyze_patterns ::
  "real \<Rightarrow> real \<Rightarrow> TransactionType \<Rightarrow> Transaction list \<Rightarrow> real" where
  "analyze_patterns now amt transaction_type history =
     (let recent_similar =
            filter (\<lambda>t. txn_type t = transaction_type \<and> created_at t \<ge> now - 300) history;
          score1 = (if length recent_similar > 2 then 0.3 else 0);
          type_frequency = (\<lambda>ty. length (filter (\<lambda>t. txn_type t = ty) history));
          total_transactions = (if history \<noteq> [] then length history else 1);
          type_ratio = real (type_frequency transaction_type) / real total_transactions;
          score2 = score1 + (if type_ratio < 0.1 then 0.2 else 0);
          score3 = score2 + (if decimal_rem amt 100 = 0 \<and> amt > 1000 then 0.1 else 0)
      in min score3 1)"

definition analyze_transaction ::
  "db \<Rightarrow> real \<Rightarrow> int \<Rightarrow> real \<Rightarrow> TransactionType \<Rightarrow> (string \<rightharpoonup> string) \<Rightarrow> error + real" where
  "analyze_transaction d now uid amt transaction_type dev_info =
     (let recent_transactions =
            filter (\<lambda>t. user_id t = uid \<and> created_at t \<ge> now - 30 * 86400) (transactions d)
      in case analyze_amount amt recent_transactions of
           Inl e \<Rightarrow> Inl e
         | Inr amount_factor \<Rightarrow>
             Inr (min (amount_factor * 0.3
                       + analyze_frequency d now uid * 0.2
                       + analyze_device d now uid dev_info * 0.25
                       + analyze_patterns now amt transaction_type recent_transactions * 0.25)
                      1))"

section \<open>Creation endpoint: \<open>api/v1/endpoints/transactions.py\<close>\<close>

record Request =
  client_host :: string
  headers :: "string \<rightharpoonup> string"

text \<open>
  The endpoint reads the type of the request body as \<open>transaction_in.transaction_type\<close>.
  The schema \<open>TransactionCreate\<close> has the fields \<open>account_id\<close>, \<open>amount\<close>, \<open>type\<close>,
  \<open>description\<close>, \<open>category\<close>, \<open>recipient_account\<close>, \<open>recipient_bank\<close> and
  \<open>merchant_info\<close>, and no field \<open>transaction_type\<close>: the access raises
  \<open>AttributeError\<close> while the arguments of the call of the scorer are evaluated.
\<close>

definition transaction_type_attr :: "TransactionCreate \<Rightarrow> error + TransactionType" where
  "transaction_type_attr transaction_in = Inl AttributeError"

text \<open>The dictionary \<open>device_info\<close> that the endpoint builds from the request.\<close>

definition request_device_info :: "Request \<Rightarrow> (string \<rightharpoonup> string)" where
  "request_device_info request =
     [''ip_address'' \<mapsto> client_host request]
       (''user_agent'' := headers request ''User-Agent'',
        ''device_id'' := headers request ''X-Device-ID'',
        ''device_type'' := headers request ''X-Device-Type'')"

definition create_transaction_endpoint ::
  "db \<Rightarrow> real \<Rightarrow> real \<Rightarrow> int \<Rightarrow> string \<Rightarrow> TransactionCreate \<Rightarrow> int \<Rightarrow> Request
     \<Rightarrow> db \<times> (error + Transaction)" where
  "create_transaction_endpoint d now today new_id ref transaction_in current_user_id request =
     (let dev_info = request_device_info request
      in case transaction_type_attr transaction_in of
           Inl e \<Rightarrow> (d, Inl e)
         | Inr transaction_type \<Rightarrow>
             (case analyze_transaction d now current_user_id (tc_amount transaction_in)
                     transaction_type dev_info of
                Inl e \<Rightarrow> (d, Inl e)
              | Inr fraud_score \<Rightarrow>
                  if fraud_score > 0.8 then (d, Inl FraudSuspected)
                  else create_transaction d now today new_id ref transaction_in
                         current_user_id dev_info))"

section \<open>Rate governor: \<open>core/rate_limiter.py\<close>\<close>

record RateLimiter =
  requests :: "string \<rightharpoonup> real list"
  blocked_ips :: "string \<rightharpoonup> real"

text \<open>
  Every rejection is an HTTP 429. \<open>Blocked\<close> carries the message and \<open>blocked_until\<close>,
  \<open>RateLimited\<close> carries \<open>retry_after\<close>.
\<close>

datatype rate_error =
    Blocked string real
  | RateLimited real
  | IndexError

fun contains :: "string \<Rightarrow> string \<Rightarrow> bool" where
  "contains sub [] = (sub = [])"
| "contains sub (c # cs) = (prefix sub (c # cs) \<or> contains sub cs)"

definition get_limit :: "string \<Rightarrow> int \<times> int" where
  "get_limit path =
     (if prefix ''/api/v1/auth'' path then (5, 60)
      else if prefix ''/api/v1/transactions'' path then (20, 60)
      else if contains ''high-value'' path then (5, 300)
      else (100, 60))"

text \<open>\<open>self.requests\<close> is a \<open>defaultdict(list)\<close>: a missing key reads as the empty list.\<close>

definition recorded :: "RateLimiter \<Rightarrow> string \<Rightarrow> real list" where
  "recorded rl ip = (case requests rl ip of None \<Rightarrow> [] | Some ts \<Rightarrow> ts)"

definition check_rate_limit ::
  "string \<Rightarrow> RateLimiter \<Rightarrow> string \<Rightarrow> string \<Rightarrow> real \<Rightarrow> RateLimiter \<times> (rate_error + unit)" where
  "check_rate_limit environment rl client_ip path current_time =
     (if environment = ''development'' then (rl, Inr ())
      else
        (case (case blocked_ips rl client_ip of
                 None \<Rightarrow> Inr rl
               | Some block_time \<Rightarrow>
                   if current_time - block_time < 3600
                   then Inl (Blocked ''Too many requests. Please try again later.''
                                     (block_time + 3600))
                   else Inr (rl\<lparr>blocked_ips := (blocked_ips rl)(client_ip := None)\<rparr>)) of
           Inl e \<Rightarrow> (rl, Inl e)
         | Inr rl1 \<Rightarrow>
             (case get_limit path of
                (max_requests, window) \<Rightarrow>
                  (let kept = filter (\<lambda>req_time. current_time - req_time < of_int window)
                                     (recorded rl1 client_ip);
                       rl2 = rl1\<lparr>requests := (requests rl1)(client_ip \<mapsto> kept)\<rparr>
                   in if int (length kept) \<ge> max_requests then
                        (if int (length kept) \<ge> max_requests * 2 then
                           (rl2\<lparr>blocked_ips := (blocked_ips rl2)(client_ip \<mapsto> current_time)\<rparr>,
                            Inl (Blocked ''Rate limit exceeded. Your IP has been blocked.''
                                         (current_time + 3600)))
                         else
                           (case kept of
                              [] \<Rightarrow> (rl2, Inl IndexError)
                            | first # _ \<Rightarrow>
                                (rl2, Inl (RateLimited (of_int window - (current_time - first))))))
                      else
                        (rl2\<lparr>requests := (requests rl2)(client_ip \<mapsto> kept @ [current_time])\<rparr>,
                         Inr ())))))"

text \<open>One iteration of the background loop \<open>_cleanup_old_requests\<close>.\<close>

definition cleanup_old_requests :: "RateLimiter \<Rightarrow> real \<Rightarrow> RateLimiter" where
  "cleanup_old_requests rl current_time =
     \<lparr>requests =
        (\<lambda>ip. case requests rl ip of
                None \<Rightarrow> None
              | Some ts \<Rightarrow>
                  (let ts' = filter (\<lambda>req_time. current_time - req_time < 3600) ts
                   in if ts' = [] then None else Some ts')),
      blocked_ips =
        (\<lambda>ip. case blocked_ips rl ip of
                None \<Rightarrow> None
              | Some block_time \<Rightarrow>
                  if current_time - block_time > 3600 then None else Some block_time)\<rparr>"

text \<open>
  The governor's life is a sequence of events: a request of a client for a path at a
  time, or an iteration of the background loop at a time.
\<close>

datatype event = Req string string real | Cleanup real

fun step :: "string \<Rightarrow> RateLimiter \<Rightarrow> event \<Rightarrow> RateLimiter" where
  "step environment rl (Req client_ip path t) = fst (check_rate_limit environment rl client_ip path t)"
| "step environment rl (Cleanup t) = cleanup_old_requests rl t"

fun run :: "string \<Rightarrow> RateLimiter \<Rightarrow> event list \<Rightarrow> RateLimiter" where
  "run environment rl [] = rl"
| "run environment rl (e # es) = run environment (step environment rl e) es"

definition RateLimiter_init :: RateLimiter where
  "RateLimiter_init = \<lparr>requests = Map.empty, blocked_ips = Map.empty\<rparr>"

section \<open>Concrete stores\<close>

definition alice_account :: Account where
  "alice_account =
     \<lparr>acc_id = 1, account_number = ''100000000001'', acc_user_id = 7, acc_status = ACTIVE,
      balance = 100, acc_currency = ''USD'', daily_transfer_limit = 10000,
      withdrawal_limit = 5000\<rparr>"

definition alice_db :: db where
  "alice_db = \<lparr>accounts = [alice_account], transactions = [], auth_devices = []\<rparr>"

definition pending_payment :: Transaction where
  "pending_payment =
     \<lparr>txn_id = 1, reference_id = ''ref-1'', user_id = 7, account_id = 1, txn_type = PAYMENT,
      status = PENDING, amount = 40, currency = ''USD'', recipient_account = None,
      device_info = Map.empty, risk_score = 0, created_at = 1000, processed_at = None,
      failure_reason = None\<rparr>"

definition completed_deposit :: Transaction where
  "completed_deposit =
     \<lparr>txn_id = 2, reference_id = ''ref-2'', user_id = 7, account_id = 1, txn_type = DEPOSIT,
      status = COMPLETED, amount = 25, currency = ''USD'', recipient_account = None,
      device_info = Map.empty, risk_score = 0, created_at = 2000, processed_at = Some 2000,
      failure_reason = None\<rparr>"

definition alice_history_db :: db where
  "alice_history_db =
     \<lparr>accounts = [alice_account], transactions = [pending_payment, completed_deposit],
      auth_devices = []\<rparr>"

definition unknown_device :: "string \<rightharpoonup> string" where
  "unknown_device = [''ip_address'' \<mapsto> ''10.0.0.1'', ''device_id'' \<mapsto> ''phone-9'']"

definition failed_transfer :: Transaction where
  "failed_transfer =
     \<lparr>txn_id = 3, reference_id = ''ref-3'', user_id = 7, account_id = 1, txn_type = TRANSFER,
      status = FAILED, amount = 9990, currency = ''USD'',
      recipient_account = Some ''100000000002'', device_info = Map.empty, risk_score = 0,
      created_at = 90000, processed_at = None, failure_reason = Some ''Insufficient funds''\<rparr>"

definition bob_account :: Account where
  "bob_account =
     \<lparr>acc_id = 2, account_number = ''100000000002'', acc_user_id = 8, acc_status = FROZEN,
      balance = 10, acc_currency = ''USD'', daily_transfer_limit = 10000,
      withdrawal_limit = 5000\<rparr>"

definition two_accounts_db :: db where
  "two_accounts_db =
     \<lparr>accounts = [alice_account, bob_account], transactions = [failed_transfer],
      auth_devices = []\<rparr>"

definition transfer_request :: "real \<Rightarrow> string \<Rightarrow> TransactionCreate" where
  "transfer_request amt recipient =
     \<lparr>tc_account_id = 1, tc_amount = amt, tc_type = TRANSFER,
      tc_recipient_account = Some recipient\<rparr>"

definition payment_request :: TransactionCreate where
  "payment_request =
     \<lparr>tc_account_id = 1, tc_amount = 40, tc_type = PAYMENT, tc_recipient_account = None\<rparr>"

definition withdrawal_request :: "real \<Rightarrow> TransactionCreate" where
  "withdrawal_request amt =
     \<lparr>tc_account_id = 1, tc_amount = amt, tc_type = WITHDRAWAL, tc_recipient_account = None\<rparr>"

section \<open>The specification's error classes and sums\<close>

fun LimitExceeded :: "error \<Rightarrow> bool" where
  "LimitExceeded (WithdrawalLimitExceeded _) = True"
| "LimitExceeded (DailyTransferLimitExceeded _) = True"
| "LimitExceeded _ = False"

fun RecipientInvalid :: "error \<Rightarrow> bool" where
  "RecipientInvalid RecipientNotFound = True"
| "RecipientInvalid RecipientNotActive = True"
| "RecipientInvalid _ = False"

text \<open>
  The sum the code compares with the daily limit: every transfer of the account created
  today, whatever its status.
\<close>

definition same_day_transfers_total :: "db \<Rightarrow> real \<Rightarrow> Account \<Rightarrow> real" where
  "same_day_transfers_total d today account =
     sum_list (map amount
       (filter (\<lambda>t. account_id t = acc_id account \<and> txn_type t = TRANSFER \<and> created_at t \<ge> today)
               (transactions d)))"

text \<open>
  The sum as the specification words it: the completed transfers of the account created
  today.
\<close>

definition spec_completed_same_day_transfers_total :: "db \<Rightarrow> real \<Rightarrow> Account \<Rightarrow> real" where
  "spec_completed_same_day_transfers_total d today account =
     sum_list (map amount
       (filter (\<lambda>t. account_id t = acc_id account \<and> txn_type t = TRANSFER \<and> created_at t \<ge> today
                    \<and> status t = COMPLETED)
               (transactions d)))"

definition unsettled_payment :: Transaction where
  "unsettled_payment =
     \<lparr>txn_id = 5, reference_id = ''ref-5'', user_id = 7, account_id = 1, txn_type = PAYMENT,
      status = PENDING, amount = 40, currency = ''USD'', recipient_account = None,
      device_info = Map.empty, risk_score = 0, created_at = 95000, processed_at = None,
      failure_reason = None\<rparr>"

definition withdrawal_at :: "int \<Rightarrow> real \<Rightarrow> Transaction" where
  "withdrawal_at i t =
     \<lparr>txn_id = i, reference_id = ''ref-w'', user_id = 7, account_id = 1, txn_type = WITHDRAWAL,
      status = COMPLETED, amount = 10, currency = ''USD'', recipient_account = None,
      device_info = Map.empty, risk_score = 0, created_at = t, processed_at = Some t,
      failure_reason = None\<rparr>"

definition alice_phone :: AuthDevice where
  "alice_phone =
     \<lparr>dev_user_id = 7, device_id = Some ''phone-1'', fingerprint = Some ''fp-1'',
      last_used = 9000\<rparr>"

definition burst_db :: db where
  "burst_db =
     \<lparr>accounts = [alice_account],
      transactions = [withdrawal_at 11 9900, withdrawal_at 12 9950, withdrawal_at 13 9990],
      auth_devices = [alice_phone]\<rparr>"

definition phone_request :: Request where
  "phone_request = \<lparr>client_host = ''10.0.0.1'', headers = [''X-Device-ID'' \<mapsto> ''phone-1'']\<rparr>"

section \<open>Concrete request sequences\<close>

fun event_time :: "event \<Rightarrow> real" where
  "event_time (Req client_ip path t) = t"
| "event_time (Cleanup t) = t"

definition five_logins :: "event list" where
  "five_logins =
     [Req ''10.0.0.1'' ''/api/v1/auth/login'' 1, Req ''10.0.0.1'' ''/api/v1/auth/login'' 2,
      Req ''10.0.0.1'' ''/api/v1/auth/login'' 3, Req ''10.0.0.1'' ''/api/v1/auth/login'' 4,
      Req ''10.0.0.1'' ''/api/v1/auth/login'' 5]"

text \<open>A client sends \<open>n\<close> requests for one path, one per second, at the times 1 to \<open>n\<close>.\<close>

fun burst :: "string \<Rightarrow> string \<Rightarrow> nat \<Rightarrow> event list" where
  "burst client_ip path 0 = []"
| "burst client_ip path (Suc n) = burst client_ip path n @ [Req client_ip path (real (Suc n))]"

section \<open>Verified properties\<close>

subsection \<open>Balance ledger\<close>

lemma find_map_same_key:
  assumes "\<And>a. acc_id (f a) = acc_id a"
  shows "find (\<lambda>a. acc_id a = aid) (map f xs) = map_option f (find (\<lambda>a. acc_id a = aid) xs)"
  using assms by (induction xs) auto

lemma get_adjust_balance:
  "AccountService_get (adjust_balance d aid delta) aid' =
     map_option (\<lambda>a. if acc_id a = aid then a\<lparr>balance := balance a + delta\<rparr> else a)
                (AccountService_get d aid')"
  unfolding AccountService_get_def adjust_balance_def
  by (simp add: find_map_same_key)

lemma get_acc_id: "AccountService_get d aid = Some a \<Longrightarrow> acc_id a = aid"
  unfolding AccountService_get_def by (auto simp: find_Some_iff)

text \<open>
  C5. For an account of the store and a positive amount: a debit of more than the balance
  fails with \<open>InsufficientFunds\<close> and returns the store as it was; a debit of at most the
  balance succeeds, the stored balance becomes the old balance minus the amount, and it is
  not negative. The withdrawal step of the orchestrator makes the same check with the same
  effect.
\<close>

theorem debit_checks_funds:
  assumes "AccountService_get d aid = Some a" and "0 < amt"
  shows "(balance a < amt \<longrightarrow>
            update_balance d aid amt ''debit'' = (d, Inl InsufficientFunds)
          \<and> (\<forall>now t. amount t = amt \<longrightarrow> process_withdrawal d now t a = Inl InsufficientFunds))
       \<and> (amt \<le> balance a \<longrightarrow>
            (\<exists>d' a'. update_balance d aid amt ''debit'' = (d', Inr a')
                  \<and> AccountService_get d' aid = Some a'
                  \<and> balance a' = balance a - amt \<and> 0 \<le> balance a')
          \<and> (\<forall>now t. amount t = amt \<longrightarrow>
                (\<exists>d' t'. process_withdrawal d now t a = Inr (d', t')
                    \<and> AccountService_get d' aid = Some (a\<lparr>balance := balance a - amt\<rparr>))))"
  using assms get_acc_id[OF assms(1)]
  by (auto simp: update_balance_def process_withdrawal_def get_adjust_balance)

theorem debit_checks_funds_witness:
  "AccountService_get alice_db 1 = Some alice_account
   \<and> update_balance alice_db 1 150 ''debit'' = (alice_db, Inl InsufficientFunds)
   \<and> fst (update_balance alice_db 1 30 ''debit'')
       = alice_db\<lparr>accounts := [alice_account\<lparr>balance := 70\<rparr>]\<rparr>
   \<and> snd (update_balance alice_db 1 30 ''debit'') = Inr (alice_account\<lparr>balance := 70\<rparr>)"
proof -
  have g: "AccountService_get alice_db 1 = Some alice_account"
    by (simp add: AccountService_get_def alice_db_def alice_account_def)
  have b: "balance alice_account = 100"
    by (simp add: alice_account_def)
  from debit_checks_funds[OF g, of 150] b
  have 1: "update_balance alice_db 1 150 ''debit'' = (alice_db, Inl InsufficientFunds)"
    by simp
  from debit_checks_funds[OF g, of 30] b
  obtain d' a' where 2: "update_balance alice_db 1 30 ''debit'' = (d', Inr a')"
    by auto
  have 3: "update_balance alice_db 1 30 ''debit''
             = (alice_db\<lparr>accounts := [alice_account\<lparr>balance := 70\<rparr>]\<rparr>,
                Inr (alice_account\<lparr>balance := 70\<rparr>))"
    by (simp add: update_balance_def AccountService_get_def adjust_balance_def
                  alice_db_def alice_account_def)
  from g 1 2 3 show ?thesis by simp
qed

subsection \<open>Cancellation\<close>

lemma find_map_preserved:
  assumes "\<And>x. P (f x) = P x"
  shows "find P (map f xs) = map_option f (find P xs)"
  using assms by (induction xs) auto

text \<open>
  C8. For a transaction that the lookup by reference and owner finds: cancellation
  succeeds if and only if its status is \<open>PENDING\<close>. A pending transaction becomes
  \<open>CANCELLED\<close> in the store and no account row changes; in any other status the call
  fails with \<open>InvalidState\<close> and the store is as it was.
\<close>

theorem cancel_only_pending:
  assumes "get_transaction d rid uid = Inr t"
  shows "((\<exists>t'. snd (cancel_transaction d rid uid) = Inr t') \<longleftrightarrow> status t = PENDING)
       \<and> (status t = PENDING \<longrightarrow>
            snd (cancel_transaction d rid uid) = Inr (t\<lparr>status := CANCELLED\<rparr>)
          \<and> get_transaction (fst (cancel_transaction d rid uid)) rid uid
              = Inr (t\<lparr>status := CANCELLED\<rparr>)
          \<and> accounts (fst (cancel_transaction d rid uid)) = accounts d)
       \<and> (status t \<noteq> PENDING \<longrightarrow> cancel_transaction d rid uid = (d, Inl InvalidState))"
proof -
  let ?f = "\<lambda>x. if txn_id x = txn_id t then x\<lparr>status := CANCELLED\<rparr> else x"
  let ?P = "\<lambda>x. reference_id x = rid \<and> user_id x = uid"
  from assms have f: "find ?P (transactions d) = Some t"
    by (auto simp: get_transaction_def split: option.splits)
  have "find ?P (map ?f (transactions d)) = map_option ?f (find ?P (transactions d))"
    by (rule find_map_preserved) simp
  with f have "find ?P (map ?f (transactions d)) = Some (t\<lparr>status := CANCELLED\<rparr>)"
    by simp
  then have g: "get_transaction (d\<lparr>transactions := map ?f (transactions d)\<rparr>) rid uid
                 = Inr (t\<lparr>status := CANCELLED\<rparr>)"
    by (simp add: get_transaction_def)
  show ?thesis
    using assms g by (simp add: cancel_transaction_def)
qed

theorem cancel_only_pending_witness:
  "get_transaction alice_history_db ''ref-1'' 7 = Inr pending_payment
   \<and> status pending_payment = PENDING
   \<and> snd (cancel_transaction alice_history_db ''ref-1'' 7)
       = Inr (pending_payment\<lparr>status := CANCELLED\<rparr>)
   \<and> accounts (fst (cancel_transaction alice_history_db ''ref-1'' 7)) = [alice_account]
   \<and> get_transaction alice_history_db ''ref-2'' 7 = Inr completed_deposit
   \<and> status completed_deposit = COMPLETED
   \<and> cancel_transaction alice_history_db ''ref-2'' 7 = (alice_history_db, Inl InvalidState)"
proof -
  have g1: "get_transaction alice_history_db ''ref-1'' 7 = Inr pending_payment"
    by (simp add: get_transaction_def alice_history_db_def pending_payment_def)
  have g2: "get_transaction alice_history_db ''ref-2'' 7 = Inr completed_deposit"
    by (simp add: get_transaction_def alice_history_db_def pending_payment_def
                  completed_deposit_def)
  have s1: "status pending_payment = PENDING"
    by (simp add: pending_payment_def)
  have s2: "status completed_deposit = COMPLETED"
    by (simp add: completed_deposit_def)
  have a: "accounts alice_history_db = [alice_account]"
    by (simp add: alice_history_db_def)
  from cancel_only_pending[OF g1] cancel_only_pending[OF g2] g1 g2 s1 s2 a
  show ?thesis by simp
qed

subsection \<open>Risk score of a new owner\<close>

lemma analyze_patterns_empty:
  "amt \<le> 1000 \<Longrightarrow> analyze_patterns now amt ty [] = 0.2"
  by (simp add: analyze_patterns_def)

lemma analyze_frequency_no_history:
  assumes "filter (\<lambda>t. user_id t = uid \<and> created_at t \<ge> now - 30 * 86400) (transactions d) = []"
  shows "analyze_frequency d now uid = 0"
proof -
  from assms
  have n: "\<forall>t \<in> set (transactions d). \<not> (user_id t = uid \<and> created_at t \<ge> now - 30 * 86400)"
    by (simp add: filter_empty_conv)
  have 1: "filter (\<lambda>t. user_id t = uid \<and> created_at t \<ge> now - 3600) (transactions d) = []"
    unfolding filter_empty_conv using n by fastforce
  have 2: "filter (\<lambda>t. user_id t = uid \<and> created_at t \<ge> now - 7 * 86400) (transactions d) = []"
    unfolding filter_empty_conv using n by fastforce
  show ?thesis by (simp add: analyze_frequency_def 1 2)
qed

text \<open>
  C1, as the code has it. For an owner with no transaction in the last 30 days and no
  registered device matching the request, a withdrawal of 500 scores 0.40: the amount
  factor is 0.5, the frequency factor 0, the device factor 0.8 and the pattern factor 0.2.
  With an empty history the type ratio is 0 / 1, which is below 0.1, so the bonus of 0.2
  for a rare transaction type is applied.
\<close>

theorem new_owner_unknown_device_score:
  assumes "filter (\<lambda>t. user_id t = uid \<and> created_at t \<ge> now - 30 * 86400) (transactions d) = []"
      and "find (\<lambda>k. dev_user_id k = uid \<and> device_id k = dev_info ''device_id'')
                (auth_devices d) = None"
  shows "analyze_transaction d now uid 500 WITHDRAWAL dev_info = Inr 0.4
       \<and> analyze_amount 500 [] = Inr 0.5
       \<and> analyze_frequency d now uid = 0
       \<and> analyze_device d now uid dev_info = 0.8
       \<and> analyze_patterns now 500 WITHDRAWAL [] = 0.2"
proof -
  have a: "analyze_amount 500 [] = Inr 0.5" by (simp add: analyze_amount_def)
  have f: "analyze_frequency d now uid = 0" by (rule analyze_frequency_no_history[OF assms(1)])
  have dv: "analyze_device d now uid dev_info = 0.8" by (simp add: analyze_device_def assms(2))
  have p: "analyze_patterns now 500 WITHDRAWAL [] = 0.2" by (simp add: analyze_patterns_empty)
  from assms(1)
  have h: "filter (\<lambda>t. user_id t = uid \<and> now - 2592000 \<le> created_at t) (transactions d) = []"
    by simp
  show ?thesis
    by (simp add: analyze_transaction_def h a f dv p)
qed

theorem new_owner_unknown_device_score_witness:
  "filter (\<lambda>t. user_id t = 7 \<and> created_at t \<ge> 100000 - 30 * 86400) (transactions alice_db) = []
   \<and> find (\<lambda>k. dev_user_id k = 7 \<and> device_id k = unknown_device ''device_id'')
           (auth_devices alice_db) = None
   \<and> analyze_transaction alice_db 100000 7 500 WITHDRAWAL unknown_device = Inr 0.4"
proof -
  have h1: "filter (\<lambda>t. user_id t = 7 \<and> created_at t \<ge> 100000 - 30 * 86400)
                   (transactions alice_db) = []"
    by (simp add: alice_db_def)
  have h2: "find (\<lambda>k. dev_user_id k = 7 \<and> device_id k = unknown_device ''device_id'')
                 (auth_devices alice_db) = None"
    by (simp add: alice_db_def)
  from new_owner_unknown_device_score[where uid = 7 and now = 100000 and d = alice_db
          and dev_info = unknown_device, OF h1 h2] h1 h2
  show ?thesis by simp
qed

text \<open>
  C1, as the specification states it: the score would be 0.35 and the pattern factor 0.
  On the store with one account, no transaction and no device, neither holds.
\<close>

theorem new_owner_score_counterexample:
  "analyze_transaction alice_db 100000 7 500 WITHDRAWAL unknown_device \<noteq> Inr 0.35
   \<and> analyze_patterns 100000 500 WITHDRAWAL [] \<noteq> 0"
  by (simp add: analyze_transaction_def analyze_amount_def analyze_frequency_def
                analyze_device_def analyze_patterns_def alice_db_def)

subsection \<open>Limits\<close>

lemma validate_transfer:
  "txn_type t = TRANSFER \<Longrightarrow>
   validate_transaction_limits d today a t =
     (if same_day_transfers_total d today a + amount t > daily_transfer_limit a
      then Inl (DailyTransferLimitExceeded (daily_transfer_limit a)) else Inr ())"
  by (simp add: validate_transaction_limits_def same_day_transfers_total_def)

lemma validate_withdrawal:
  "txn_type t = WITHDRAWAL \<Longrightarrow>
   validate_transaction_limits d today a t =
     (if amount t > withdrawal_limit a
      then Inl (WithdrawalLimitExceeded (withdrawal_limit a)) else Inr ())"
  by (simp add: validate_transaction_limits_def)

lemma process_transfer_not_limit:
  "process_transfer d now t a = Inl e \<Longrightarrow> \<not> LimitExceeded e"
  by (auto simp: process_transfer_def split: if_splits option.splits)

lemma process_withdrawal_not_limit:
  "process_withdrawal d now t a = Inl e \<Longrightarrow> \<not> LimitExceeded e"
  by (auto simp: process_withdrawal_def split: if_splits)

text \<open>
  C3, as the code has it. When the owning account is found and active: the creation of a
  transfer fails with \<open>LimitExceeded\<close> exactly when the amounts of all transfers of the
  account created today, whatever their status, plus the candidate amount exceed the
  daily transfer limit; the creation of a withdrawal fails with \<open>LimitExceeded\<close> exactly
  when the amount exceeds the withdrawal limit.
\<close>

theorem limits_count_every_same_day_transfer:
  assumes "find (\<lambda>a. acc_id a = tc_account_id td \<and> acc_user_id a = uid) (accounts d) = Some a"
      and "acc_status a = ACTIVE"
  shows "(tc_type td = TRANSFER \<longrightarrow>
            ((\<exists>e. snd (create_transaction d now today nid ref td uid dev) = Inl e \<and> LimitExceeded e)
             \<longleftrightarrow> same_day_transfers_total d today a + tc_amount td > daily_transfer_limit a))
       \<and> (tc_type td = WITHDRAWAL \<longrightarrow>
            ((\<exists>e. snd (create_transaction d now today nid ref td uid dev) = Inl e \<and> LimitExceeded e)
             \<longleftrightarrow> tc_amount td > withdrawal_limit a))"
proof (intro conjI impI)
  assume ty: "tc_type td = TRANSFER"
  show "(\<exists>e. snd (create_transaction d now today nid ref td uid dev) = Inl e \<and> LimitExceeded e)
        \<longleftrightarrow> same_day_transfers_total d today a + tc_amount td > daily_transfer_limit a"
    using assms ty
    by (auto simp: create_transaction_def validate_transfer Let_def
             split: sum.splits dest: process_transfer_not_limit)
next
  assume ty: "tc_type td = WITHDRAWAL"
  show "(\<exists>e. snd (create_transaction d now today nid ref td uid dev) = Inl e \<and> LimitExceeded e)
        \<longleftrightarrow> tc_amount td > withdrawal_limit a"
    using assms ty
    by (auto simp: create_transaction_def validate_withdrawal Let_def
             split: sum.splits dest: process_withdrawal_not_limit)
qed


theorem limits_count_every_same_day_transfer_witness:
  "find (\<lambda>a. acc_id a = tc_account_id (transfer_request 20 ''100000000002'') \<and> acc_user_id a = 7)
        (accounts two_accounts_db) = Some alice_account
   \<and> acc_status alice_account = ACTIVE
   \<and> same_day_transfers_total two_accounts_db 86400 alice_account = 9990
   \<and> (\<exists>e. snd (create_transaction two_accounts_db 95000 86400 5 ''ref-5''
                  (transfer_request 20 ''100000000002'') 7 Map.empty) = Inl e \<and> LimitExceeded e)
   \<and> (\<exists>e. snd (create_transaction two_accounts_db 95000 86400 5 ''ref-5''
                  (withdrawal_request 6000) 7 Map.empty) = Inl e \<and> LimitExceeded e)"
proof -
  have h1: "find (\<lambda>a. acc_id a = tc_account_id (transfer_request 20 ''100000000002'')
                        \<and> acc_user_id a = 7)
                 (accounts two_accounts_db) = Some alice_account"
    by (simp add: two_accounts_db_def alice_account_def transfer_request_def)
  have h1': "find (\<lambda>a. acc_id a = tc_account_id (withdrawal_request 6000) \<and> acc_user_id a = 7)
                  (accounts two_accounts_db) = Some alice_account"
    by (simp add: two_accounts_db_def alice_account_def withdrawal_request_def)
  have h2: "acc_status alice_account = ACTIVE"
    by (simp add: alice_account_def)
  have s: "same_day_transfers_total two_accounts_db 86400 alice_account = 9990"
    by (simp add: same_day_transfers_total_def two_accounts_db_def failed_transfer_def
                  alice_account_def)
  have l: "daily_transfer_limit alice_account = 10000" "withdrawal_limit alice_account = 5000"
    by (simp_all add: alice_account_def)
  have t: "tc_type (transfer_request 20 ''100000000002'') = TRANSFER"
          "tc_amount (transfer_request 20 ''100000000002'') = 20"
          "tc_type (withdrawal_request 6000) = WITHDRAWAL"
          "tc_amount (withdrawal_request 6000) = 6000"
    by (simp_all add: transfer_request_def withdrawal_request_def)
  from limits_count_every_same_day_transfer[OF h1 h2, where today = 86400 and now = 95000 and nid = 5 and ref = "''ref-5''" and dev = Map.empty]
       limits_count_every_same_day_transfer[OF h1' h2, where today = 86400 and now = 95000 and nid = 5 and ref = "''ref-5''" and dev = Map.empty]
       h1 h2 s l t
  show ?thesis by simp
qed

text \<open>
  C3, as the specification states it: only completed transfers would count. With a failed
  transfer of 9990 created today and a daily limit of 10000, a transfer of 20 is refused
  although the completed transfers of the day sum to 0.
\<close>

theorem completed_only_limit_counterexample:
  "snd (create_transaction two_accounts_db 95000 86400 5 ''ref-5''
          (transfer_request 20 ''100000000002'') 7 Map.empty)
     = Inl (DailyTransferLimitExceeded 10000)
   \<and> \<not> (spec_completed_same_day_transfers_total two_accounts_db 86400 alice_account + 20
          > daily_transfer_limit alice_account)"
  by (simp add: create_transaction_def validate_transaction_limits_def
                spec_completed_same_day_transfers_total_def two_accounts_db_def
                alice_account_def bob_account_def failed_transfer_def transfer_request_def)

subsection \<open>Transfers to an invalid recipient\<close>

lemma process_transfer_invalid_recipient:
  assumes "case find (\<lambda>a. Some (account_number a) = recipient_account t) (accounts d) of
             None \<Rightarrow> True | Some r \<Rightarrow> acc_status r \<noteq> ACTIVE"
  shows "\<exists>e. process_transfer d now t a = Inl e
             \<and> (amount t \<le> balance a \<longrightarrow> RecipientInvalid e)"
  using assms by (auto simp: process_transfer_def split: option.splits)

text \<open>
  C7, as the code has it. A transfer whose recipient account does not exist or is not
  active always fails and returns the store as it was, so no balance changes. The failure
  is \<open>RecipientInvalid\<close> when the source account is found and active, the daily limit is
  respected and the source balance covers the amount; otherwise the earlier check that
  fails decides the error.
\<close>

theorem transfer_invalid_recipient_all_or_nothing:
  assumes "tc_type td = TRANSFER"
      and "case find (\<lambda>a. Some (account_number a) = tc_recipient_account td) (accounts d) of
             None \<Rightarrow> True | Some r \<Rightarrow> acc_status r \<noteq> ACTIVE"
  shows "fst (create_transaction d now today nid ref td uid dev) = d
       \<and> (\<exists>e. snd (create_transaction d now today nid ref td uid dev) = Inl e)
       \<and> (\<forall>a. find (\<lambda>a. acc_id a = tc_account_id td \<and> acc_user_id a = uid) (accounts d) = Some a
              \<and> acc_status a = ACTIVE
              \<and> same_day_transfers_total d today a + tc_amount td \<le> daily_transfer_limit a
              \<and> tc_amount td \<le> balance a
            \<longrightarrow> (\<exists>e. snd (create_transaction d now today nid ref td uid dev) = Inl e
                     \<and> RecipientInvalid e))"
proof -
  let ?t = "\<lambda>a. \<lparr>txn_id = nid, reference_id = ref, user_id = uid,
                 account_id = tc_account_id td, txn_type = tc_type td, status = PENDING,
                 amount = tc_amount td, currency = acc_currency a,
                 recipient_account = tc_recipient_account td,
                 device_info = dev, risk_score = 0, created_at = now,
                 processed_at = None, failure_reason = None\<rparr>"
  have p: "\<exists>e. process_transfer d now (?t a) a = Inl e
               \<and> (tc_amount td \<le> balance a \<longrightarrow> RecipientInvalid e)" for a
    using process_transfer_invalid_recipient[of "?t a" d now a] assms(2) by simp
  show ?thesis
  proof (cases "find (\<lambda>a. acc_id a = tc_account_id td \<and> acc_user_id a = uid) (accounts d)")
    case None
    then show ?thesis by (simp add: create_transaction_def)
  next
    case (Some a)
    from p[of a] obtain e where e: "process_transfer d now (?t a) a = Inl e"
      "tc_amount td \<le> balance a \<longrightarrow> RecipientInvalid e" by blast
    show ?thesis
      using Some e assms(1)
      by (auto simp: create_transaction_def Let_def validate_transaction_limits_def
                     same_day_transfers_total_def split: sum.splits)
  qed
qed

theorem transfer_invalid_recipient_all_or_nothing_witness:
  "tc_type (transfer_request 20 ''100000000002'') = TRANSFER
   \<and> find (\<lambda>a. Some (account_number a) = tc_recipient_account (transfer_request 20 ''100000000002''))
           (accounts two_accounts_db) = Some bob_account
   \<and> acc_status bob_account \<noteq> ACTIVE
   \<and> fst (create_transaction two_accounts_db 180000 172800 5 ''ref-5''
             (transfer_request 20 ''100000000002'') 7 Map.empty) = two_accounts_db
   \<and> snd (create_transaction two_accounts_db 180000 172800 5 ''ref-5''
             (transfer_request 20 ''100000000002'') 7 Map.empty) = Inl RecipientNotActive"
proof -
  have h1: "tc_type (transfer_request 20 ''100000000002'') = TRANSFER"
    by (simp add: transfer_request_def)
  have f: "find (\<lambda>a. Some (account_number a)
                       = tc_recipient_account (transfer_request 20 ''100000000002''))
                (accounts two_accounts_db) = Some bob_account"
    by (simp add: two_accounts_db_def alice_account_def bob_account_def transfer_request_def)
  have b: "acc_status bob_account \<noteq> ACTIVE"
    by (simp add: bob_account_def)
  have h2: "case find (\<lambda>a. Some (account_number a)
                       = tc_recipient_account (transfer_request 20 ''100000000002''))
                (accounts two_accounts_db) of None \<Rightarrow> True | Some r \<Rightarrow> acc_status r \<noteq> ACTIVE"
    using f b by simp
  have s: "snd (create_transaction two_accounts_db 180000 172800 5 ''ref-5''
             (transfer_request 20 ''100000000002'') 7 Map.empty) = Inl RecipientNotActive"
    by (simp add: create_transaction_def validate_transaction_limits_def process_transfer_def
                  two_accounts_db_def alice_account_def bob_account_def failed_transfer_def
                  transfer_request_def)
  from transfer_invalid_recipient_all_or_nothing[OF h1 h2, where now = 180000
         and today = 172800 and nid = 5 and ref = "''ref-5''" and uid = 7 and dev = Map.empty]
  have "fst (create_transaction two_accounts_db 180000 172800 5 ''ref-5''
             (transfer_request 20 ''100000000002'') 7 Map.empty) = two_accounts_db"
    by blast
  with h1 f b s show ?thesis by simp
qed

text \<open>
  C7, as the specification states it: the failure would always be \<open>RecipientInvalid\<close>.
  A transfer of 500 from a balance of 100 to an account number that does not exist fails
  with \<open>InsufficientFunds\<close>, because the funds are checked before the recipient is looked
  up.
\<close>

theorem recipient_invalid_counterexample:
  "snd (create_transaction alice_db 95000 86400 5 ''ref-5''
          (transfer_request 500 ''999999999999'') 7 Map.empty) = Inl InsufficientFunds
   \<and> \<not> RecipientInvalid InsufficientFunds"
  by (simp add: create_transaction_def validate_transaction_limits_def process_transfer_def
                alice_db_def alice_account_def transfer_request_def)

subsection \<open>Settlement by type\<close>

lemma create_other_types_not_settled:
  assumes "find (\<lambda>a. acc_id a = tc_account_id td \<and> acc_user_id a = uid) (accounts d) = Some a"
      and "acc_status a = ACTIVE"
      and "tc_type td \<notin> {WITHDRAWAL, DEPOSIT, TRANSFER}"
  shows "accounts (fst (create_transaction d now today nid ref td uid dev)) = accounts d
       \<and> (\<exists>t. snd (create_transaction d now today nid ref td uid dev) = Inr t
              \<and> status t = PENDING \<and> processed_at t = None)"
  using assms
  by (simp add: create_transaction_def validate_transaction_limits_def Let_def)

lemma process_transaction_debits_payment:
  assumes "TransactionService_get d tid = Some t"
      and "txn_type t = PAYMENT"
      and "AccountService_get d (account_id t) = Some a"
      and "amount t \<le> balance a"
  shows "accounts (fst (process_transaction d now tid rs))
           = accounts (adjust_balance d (account_id t) (- amount t))
       \<and> snd (process_transaction d now tid rs)
           = Inr (t\<lparr>status := COMPLETED, processed_at := Some now, risk_score := rs\<rparr>)"
  using assms
  by (simp add: process_transaction_def update_balance_def save_transaction_def Let_def)

text \<open>
  C4 at a payment. The creation path of the orchestrator settles withdrawals, deposits
  and transfers only: a payment of 40 on an active account with balance 100 is stored
  with status \<open>PENDING\<close> and no processed timestamp, and the balance stays 100. The
  settlement of \<open>services/transaction.py\<close>, run on the stored row, debits the account
  to 60 and completes the transaction.
\<close>

theorem payment_created_but_not_settled:
  "create_transaction alice_db 95000 86400 5 ''ref-5'' payment_request 7 Map.empty
     = (alice_db\<lparr>transactions := [unsettled_payment]\<rparr>, Inr unsettled_payment)
   \<and> status unsettled_payment = PENDING
   \<and> processed_at unsettled_payment = None
   \<and> accounts (alice_db\<lparr>transactions := [unsettled_payment]\<rparr>) = [alice_account]
   \<and> balance alice_account = 100
   \<and> accounts (fst (process_transaction (alice_db\<lparr>transactions := [unsettled_payment]\<rparr>)
                        95001 5 0))
       = [alice_account\<lparr>balance := 60\<rparr>]
   \<and> snd (process_transaction (alice_db\<lparr>transactions := [unsettled_payment]\<rparr>) 95001 5 0)
       = Inr (unsettled_payment\<lparr>status := COMPLETED, processed_at := Some 95001,
                                 risk_score := 0\<rparr>)"
  by (simp add: create_transaction_def validate_transaction_limits_def
                process_transaction_def TransactionService_get_def update_balance_def
                AccountService_get_def adjust_balance_def save_transaction_def
                alice_db_def alice_account_def payment_request_def unsettled_payment_def Let_def)

subsection \<open>Rate governor: what is recorded\<close>

lemma get_limit_pos: "0 < fst (get_limit p)"
  by (simp add: get_limit_def)

lemma check_development:
  "check_rate_limit ''development'' rl ip path t = (rl, Inr ())"
  by (simp add: check_rate_limit_def)

lemma check_blocked:
  assumes "env \<noteq> ''development''" and "blocked_ips rl ip = Some b" and "t - b < 3600"
  shows "check_rate_limit env rl ip path t
           = (rl, Inl (Blocked ''Too many requests. Please try again later.'' (b + 3600)))"
  using assms by (simp add: check_rate_limit_def)

text \<open>The governor's steps once the client is not in its cool-down.\<close>

lemma check_unblocked:
  assumes "env \<noteq> ''development''"
      and "case blocked_ips rl ip of None \<Rightarrow> True | Some b \<Rightarrow> \<not> t - b < 3600"
      and "get_limit path = (L, W)"
      and "kept = filter (\<lambda>x. t - x < of_int W) (recorded rl ip)"
  shows "check_rate_limit env rl ip path t =
           (if int (length kept) \<ge> L then
              (if int (length kept) \<ge> L * 2 then
                 (\<lparr>requests = (requests rl)(ip \<mapsto> kept),
                   blocked_ips = (blocked_ips rl)(ip \<mapsto> t)\<rparr>,
                  Inl (Blocked ''Rate limit exceeded. Your IP has been blocked.'' (t + 3600)))
               else
                 (\<lparr>requests = (requests rl)(ip \<mapsto> kept),
                   blocked_ips = (blocked_ips rl)(ip := None)\<rparr>,
                  case kept of [] \<Rightarrow> Inl IndexError
                  | first # _ \<Rightarrow> Inl (RateLimited (of_int W - (t - first)))))
            else
              (\<lparr>requests = (requests rl)(ip \<mapsto> kept @ [t]),
                blocked_ips = (blocked_ips rl)(ip := None)\<rparr>, Inr ()))"
proof (cases "blocked_ips rl ip")
  case None
  then have "(blocked_ips rl)(ip := None) = blocked_ips rl" by auto
  with None assms show ?thesis
    by (cases rl) (simp add: check_rate_limit_def recorded_def Let_def split: list.splits)
next
  case (Some b)
  with assms show ?thesis
    by (cases rl) (simp add: check_rate_limit_def recorded_def Let_def split: list.splits)
qed


lemma check_recorded_same:
  "recorded (fst (check_rate_limit env rl ip path t)) ip =
     (if env = ''development'' then recorded rl ip
      else if (case blocked_ips rl ip of None \<Rightarrow> False | Some b \<Rightarrow> t - b < 3600)
        then recorded rl ip
      else if int (length (filter (\<lambda>x. t - x < of_int (snd (get_limit path))) (recorded rl ip)))
                \<ge> fst (get_limit path)
        then filter (\<lambda>x. t - x < of_int (snd (get_limit path))) (recorded rl ip)
      else filter (\<lambda>x. t - x < of_int (snd (get_limit path))) (recorded rl ip) @ [t])"
proof (cases "env = ''development''")
  case True
  then show ?thesis by (simp add: check_development)
next
  case dev: False
  show ?thesis
  proof (cases "case blocked_ips rl ip of None \<Rightarrow> False | Some b \<Rightarrow> t - b < 3600")
    case True
    then obtain b where "blocked_ips rl ip = Some b" "t - b < 3600"
      by (auto split: option.splits)
    with dev True show ?thesis by (simp add: check_blocked)
  next
    case False
    then have nb: "case blocked_ips rl ip of None \<Rightarrow> True | Some b \<Rightarrow> \<not> t - b < 3600"
      by (auto split: option.splits)
    obtain L W where lw: "get_limit path = (L, W)" by (cases "get_limit path")
    show ?thesis
      using dev False lw
      by (simp add: check_unblocked[OF dev nb lw refl] recorded_def)
  qed
qed

lemma check_other_client:
  assumes "ip' \<noteq> ip"
  shows "recorded (fst (check_rate_limit env rl ip path t)) ip' = recorded rl ip'"
    and "blocked_ips (fst (check_rate_limit env rl ip path t)) ip' = blocked_ips rl ip'"
proof -
  obtain L W where lw: "get_limit path = (L, W)" by (cases "get_limit path")
  have "recorded (fst (check_rate_limit env rl ip path t)) ip' = recorded rl ip'
      \<and> blocked_ips (fst (check_rate_limit env rl ip path t)) ip' = blocked_ips rl ip'"
  proof (cases "env = ''development''")
    case True
    then show ?thesis by (simp add: check_development)
  next
    case dev: False
    show ?thesis
    proof (cases "case blocked_ips rl ip of None \<Rightarrow> False | Some b \<Rightarrow> t - b < 3600")
      case True
      then obtain b where "blocked_ips rl ip = Some b" "t - b < 3600"
        by (auto split: option.splits)
      with dev show ?thesis by (simp add: check_blocked)
    next
      case False
      then have nb: "case blocked_ips rl ip of None \<Rightarrow> True | Some b \<Rightarrow> \<not> t - b < 3600"
        by (auto split: option.splits)
      show ?thesis
        using assms by (simp add: check_unblocked[OF dev nb lw refl] recorded_def)
    qed
  qed
  then show "recorded (fst (check_rate_limit env rl ip path t)) ip' = recorded rl ip'"
    and "blocked_ips (fst (check_rate_limit env rl ip path t)) ip' = blocked_ips rl ip'"
    by simp_all
qed

lemma cleanup_recorded:
  "recorded (cleanup_old_requests rl t) ip = filter (\<lambda>x. t - x < 3600) (recorded rl ip)"
  by (simp add: cleanup_old_requests_def recorded_def Let_def split: option.splits)

lemma step_keeps_bound:
  assumes "int (length (recorded rl ip)) \<le> fst (get_limit p)"
      and "\<forall>path' t'. ev = Req ip path' t' \<longrightarrow> get_limit path' = get_limit p"
  shows "int (length (recorded (step env rl ev) ip)) \<le> fst (get_limit p)"
proof (cases ev)
  case (Req ip' path' t')
  show ?thesis
  proof (cases "ip' = ip")
    case True
    with Req assms(2) have g: "get_limit path' = get_limit p" by simp
    have "int (length (filter (\<lambda>x. t' - x < of_int (snd (get_limit p))) (recorded rl ip)))
            \<le> int (length (recorded rl ip))"
      by simp
    with assms(1)
    have k: "int (length (filter (\<lambda>x. t' - x < of_int (snd (get_limit p))) (recorded rl ip)))
               \<le> fst (get_limit p)"
      by (rule order_trans[rotated])
    show ?thesis
      using Req True g k assms(1) by (auto simp: check_recorded_same)
  next
    case False
    then have "ip \<noteq> ip'" by simp
    with Req assms(1) show ?thesis by (simp add: check_other_client(1))
  qed
next
  case (Cleanup t')
  have "int (length (filter (\<lambda>x. t' - x < 3600) (recorded rl ip)))
          \<le> int (length (recorded rl ip))"
    by simp
  with assms(1)
  have "int (length (filter (\<lambda>x. t' - x < 3600) (recorded rl ip))) \<le> fst (get_limit p)"
    by (rule order_trans[rotated])
  with Cleanup show ?thesis by (simp add: cleanup_recorded)
qed

lemma run_keeps_bound:
  assumes "int (length (recorded rl ip)) \<le> fst (get_limit p)"
      and "\<forall>ev \<in> set evs. \<forall>path' t'. ev = Req ip path' t' \<longrightarrow> get_limit path' = get_limit p"
  shows "int (length (recorded (run env rl evs) ip)) \<le> fst (get_limit p)"
  using assms
proof (induction evs arbitrary: rl)
  case Nil
  then show ?case by simp
next
  case (Cons ev evs)
  from Cons.prems have "int (length (recorded (step env rl ev) ip)) \<le> fst (get_limit p)"
    by (intro step_keeps_bound) auto
  with Cons show ?case by simp
qed

text \<open>
  C10. A request that the governor rejects leaves the client's recorded timestamps as
  they were or purged of the timestamps outside the window; the timestamp of the request
  is not appended. Consequently, from the initial state and for any sequence of requests
  and background iterations in which all requests of the client fall in one route class,
  the number of the client's recorded timestamps never exceeds the limit of that class.
\<close>

theorem rejected_requests_are_not_recorded:
  "(\<forall>e. snd (check_rate_limit env rl ip path t) = Inl e \<longrightarrow>
        recorded (fst (check_rate_limit env rl ip path t)) ip = recorded rl ip
      \<or> recorded (fst (check_rate_limit env rl ip path t)) ip
          = filter (\<lambda>x. t - x < of_int (snd (get_limit path))) (recorded rl ip))
   \<and> (\<forall>evs p. (\<forall>ev \<in> set evs. \<forall>path' t'. ev = Req ip path' t' \<longrightarrow> get_limit path' = get_limit p)
        \<longrightarrow> int (length (recorded (run env RateLimiter_init evs) ip)) \<le> fst (get_limit p))"
proof (intro conjI allI impI)
  fix e
  assume r: "snd (check_rate_limit env rl ip path t) = Inl e"
  obtain L W where lw: "get_limit path = (L, W)" by (cases "get_limit path")
  show "recorded (fst (check_rate_limit env rl ip path t)) ip = recorded rl ip
      \<or> recorded (fst (check_rate_limit env rl ip path t)) ip
          = filter (\<lambda>x. t - x < of_int (snd (get_limit path))) (recorded rl ip)"
  proof (cases "env = ''development''")
    case True
    then show ?thesis by (simp add: check_development)
  next
    case dev: False
    show ?thesis
    proof (cases "case blocked_ips rl ip of None \<Rightarrow> False | Some b \<Rightarrow> t - b < 3600")
      case True
      then show ?thesis using dev by (simp add: check_recorded_same)
    next
      case False
      then have nb: "case blocked_ips rl ip of None \<Rightarrow> True | Some b \<Rightarrow> \<not> t - b < 3600"
        by (auto split: option.splits)
      from r have "int (length (filter (\<lambda>x. t - x < of_int W) (recorded rl ip))) \<ge> L"
        by (simp add: check_unblocked[OF dev nb lw refl] split: if_splits)
      then show ?thesis
        using dev False lw by (simp add: check_recorded_same)
    qed
  qed
next
  fix evs p
  assume "\<forall>ev \<in> set evs. \<forall>path' t'. ev = Req ip path' t' \<longrightarrow> get_limit path' = get_limit p"
  moreover have "int (length (recorded RateLimiter_init ip)) \<le> fst (get_limit p)"
    using get_limit_pos[of p] by (simp add: RateLimiter_init_def recorded_def)
  ultimately show "int (length (recorded (run env RateLimiter_init evs) ip)) \<le> fst (get_limit p)"
    by (rule run_keeps_bound[rotated])
qed


theorem rejected_requests_are_not_recorded_witness:
  "get_limit ''/api/v1/auth/login'' = (5, 60)
   \<and> recorded (run ''production'' RateLimiter_init five_logins) ''10.0.0.1'' = [1, 2, 3, 4, 5]
   \<and> snd (check_rate_limit ''production'' (run ''production'' RateLimiter_init five_logins)
             ''10.0.0.1'' ''/api/v1/auth/login'' 6) = Inl (RateLimited 55)
   \<and> recorded (fst (check_rate_limit ''production''
                       (run ''production'' RateLimiter_init five_logins)
                       ''10.0.0.1'' ''/api/v1/auth/login'' 6)) ''10.0.0.1'' = [1, 2, 3, 4, 5]
   \<and> int (length (recorded (run ''production'' RateLimiter_init five_logins) ''10.0.0.1''))
       \<le> fst (get_limit ''/api/v1/auth/login'')"
proof -
  have g: "get_limit ''/api/v1/auth/login'' = (5, 60)"
    by (simp add: get_limit_def)
  have r: "recorded (run ''production'' RateLimiter_init five_logins) ''10.0.0.1''
             = [1, 2, 3, 4, 5]"
    by (simp add: five_logins_def RateLimiter_init_def check_rate_limit_def recorded_def g
                  Let_def)
  have b: "blocked_ips (run ''production'' RateLimiter_init five_logins) ''10.0.0.1'' = None"
    by (simp add: five_logins_def RateLimiter_init_def check_rate_limit_def recorded_def g
                  Let_def)
  have c: "snd (check_rate_limit ''production'' (run ''production'' RateLimiter_init five_logins)
             ''10.0.0.1'' ''/api/v1/auth/login'' 6) = Inl (RateLimited 55)"
    by (subst check_unblocked[where L = 5 and W = 60, OF _ _ g refl]) (simp_all add: b r)
  have h: "\<forall>ev \<in> set five_logins. \<forall>path' t'. ev = Req ''10.0.0.1'' path' t'
             \<longrightarrow> get_limit path' = get_limit ''/api/v1/auth/login''"
    by (simp add: five_logins_def)
  from rejected_requests_are_not_recorded[of "''production''"
         "run ''production'' RateLimiter_init five_logins" "''10.0.0.1''"
         "''/api/v1/auth/login''" 6] c r g h
  show ?thesis by (auto simp: r)
qed

subsection \<open>Rate governor: rejection and blocking\<close>

lemma step_keeps_block:
  assumes "blocked_ips rl ip = Some b" and "event_time ev - b < 3600"
  shows "blocked_ips (step env rl ev) ip = Some b"
proof (cases ev)
  case (Req ip' path' t')
  show ?thesis
  proof (cases "ip' = ip")
    case True
    show ?thesis
    proof (cases "env = ''development''")
      case True
      with Req assms show ?thesis by (simp add: check_development)
    next
      case False
      with Req True assms show ?thesis by (simp add: check_blocked)
    qed
  next
    case False
    then have "ip \<noteq> ip'" by simp
    with Req assms show ?thesis by (simp add: check_other_client(2))
  qed
next
  case (Cleanup t')
  with assms show ?thesis by (simp add: cleanup_old_requests_def)
qed

lemma run_keeps_block:
  assumes "blocked_ips rl ip = Some b" and "\<forall>ev \<in> set evs. event_time ev - b < 3600"
  shows "blocked_ips (run env rl evs) ip = Some b"
  using assms
proof (induction evs arbitrary: rl)
  case Nil
  then show ?case by simp
next
  case (Cons ev evs)
  from Cons.prems have "blocked_ips (step env rl ev) ip = Some b"
    by (intro step_keeps_block) auto
  with Cons show ?case by simp
qed

lemma sorted_hd_is_Min:
  fixes xs :: "real list"
  assumes "sorted xs" and "xs \<noteq> []"
  shows "hd xs = Min (set xs)"
proof (cases xs)
  case Nil
  with assms show ?thesis by simp
next
  case (Cons x ys)
  with assms have "\<forall>y \<in> set ys. x \<le> y" by simp
  then have "Min (insert x (set ys)) = x"
    by (intro Min_eqI) auto
  with Cons show ?thesis by simp
qed

text \<open>
  With a clock that does not run backwards, the recorded timestamps of a client are in
  ascending order, so the first retained timestamp is the oldest.
\<close>

lemma step_recorded_cases:
  "recorded (step env rl ev) ip = recorded rl ip
   \<or> (\<exists>P. recorded (step env rl ev) ip = filter P (recorded rl ip))
   \<or> (\<exists>P. recorded (step env rl ev) ip = filter P (recorded rl ip) @ [event_time ev])"
proof (cases ev)
  case (Req ip' path' t')
  show ?thesis
  proof (cases "ip' = ip")
    case True
    with Req show ?thesis
      by (simp add: check_recorded_same) blast
  next
    case False
    then have "ip \<noteq> ip'" by simp
    with Req show ?thesis by (simp add: check_other_client(1))
  qed
next
  case (Cleanup t')
  then show ?thesis by (simp add: cleanup_recorded) blast
qed

lemma run_keeps_sorted:
  assumes "sorted (map event_time evs)"
      and "sorted (recorded rl ip)"
      and "\<forall>x \<in> set (recorded rl ip). \<forall>ev \<in> set evs. x \<le> event_time ev"
  shows "sorted (recorded (run env rl evs) ip)"
  using assms
proof (induction evs arbitrary: rl)
  case Nil
  then show ?case by simp
next
  case (Cons ev evs)
  let ?r = "recorded (step env rl ev) ip"
  from Cons.prems(1) have later: "\<forall>e \<in> set evs. event_time ev \<le> event_time e"
    and srt: "sorted (map event_time evs)" by simp_all
  from Cons.prems(3) have now: "\<forall>x \<in> set (recorded rl ip). x \<le> event_time ev"
    and old: "\<forall>x \<in> set (recorded rl ip). \<forall>e \<in> set evs. x \<le> event_time e" by simp_all
  from step_recorded_cases[of env rl ev ip]
  have "sorted ?r \<and> (\<forall>x \<in> set ?r. \<forall>e \<in> set evs. x \<le> event_time e)"
  proof (elim disjE exE)
    assume "?r = recorded rl ip"
    with Cons.prems(2) old show ?thesis by simp
  next
    fix P assume "?r = filter P (recorded rl ip)"
    with Cons.prems(2) old show ?thesis by (simp add: sorted_wrt_filter)
  next
    fix P assume "?r = filter P (recorded rl ip) @ [event_time ev]"
    with Cons.prems(2) old now later show ?thesis
      by (auto simp: sorted_append sorted_wrt_filter)
  qed
  with srt have "sorted (recorded (run env (step env rl ev) evs) ip)"
    by (intro Cons.IH) auto
  then show ?case by simp
qed

text \<open>
  What one request does, given the state it finds. Outside development mode and for a
  client that is not in its cool-down: with the limit reached but not twice the limit
  among the retained timestamps, the request is rejected with \<open>RateLimited\<close> and a
  retry-after of the window length minus the age of the first retained timestamp, the
  oldest one when the recorded timestamps are in ascending order; with twice the limit
  reached, the client is entered in the block list, and its requests are rejected with
  \<open>Blocked\<close> for as long as less than 3600 seconds have passed.
\<close>

lemma check_rate_limit_tiers:
  assumes "env \<noteq> ''development''"
      and "case blocked_ips rl ip of None \<Rightarrow> True | Some b \<Rightarrow> \<not> t - b < 3600"
      and "get_limit path = (L, W)"
      and "kept = filter (\<lambda>x. t - x < of_int W) (recorded rl ip)"
  shows "(L \<le> int (length kept) \<and> int (length kept) < 2 * L \<longrightarrow>
            snd (check_rate_limit env rl ip path t)
              = Inl (RateLimited (of_int W - (t - hd kept)))
          \<and> (sorted (recorded rl ip) \<longrightarrow> hd kept = Min (set kept)))
       \<and> (2 * L \<le> int (length kept) \<longrightarrow>
            snd (check_rate_limit env rl ip path t)
              = Inl (Blocked ''Rate limit exceeded. Your IP has been blocked.'' (t + 3600))
          \<and> (\<forall>evs path' t'. (\<forall>ev \<in> set evs. event_time ev - t < 3600) \<and> t' - t < 3600 \<longrightarrow>
                check_rate_limit env (run env (fst (check_rate_limit env rl ip path t)) evs)
                                 ip path' t'
                  = (run env (fst (check_rate_limit env rl ip path t)) evs,
                     Inl (Blocked ''Too many requests. Please try again later.'' (t + 3600)))))"
proof (intro conjI impI allI)
  assume a: "L \<le> int (length kept) \<and> int (length kept) < 2 * L"
  from get_limit_pos[of path] assms(3) have "0 < L" by simp
  with a obtain first rest where k: "kept = first # rest" by (cases kept) auto
  from a k show "snd (check_rate_limit env rl ip path t)
                   = Inl (RateLimited (of_int W - (t - hd kept)))"
    by (simp add: check_unblocked[OF assms])
next
  assume a: "L \<le> int (length kept) \<and> int (length kept) < 2 * L"
  assume s: "sorted (recorded rl ip)"
  from get_limit_pos[of path] assms(3) have "0 < L" by simp
  with a have ne: "kept \<noteq> []" by auto
  from s have "sorted kept" unfolding assms(4) by (rule sorted_wrt_filter)
  then show "hd kept = Min (set kept)" using ne by (rule sorted_hd_is_Min)
next
  assume a: "2 * L \<le> int (length kept)"
  from get_limit_pos[of path] assms(3) have "0 < L" by simp
  with a show "snd (check_rate_limit env rl ip path t)
                 = Inl (Blocked ''Rate limit exceeded. Your IP has been blocked.'' (t + 3600))"
    by (simp add: check_unblocked[OF assms])
next
  fix evs path' t'
  assume a: "2 * L \<le> int (length kept)"
  assume e: "(\<forall>ev \<in> set evs. event_time ev - t < 3600) \<and> t' - t < 3600"
  from get_limit_pos[of path] assms(3) have "0 < L" by simp
  with a have "blocked_ips (fst (check_rate_limit env rl ip path t)) ip = Some t"
    by (simp add: check_unblocked[OF assms])
  with e have "blocked_ips (run env (fst (check_rate_limit env rl ip path t)) evs) ip = Some t"
    by (intro run_keeps_block) auto
  with assms(1) e
  show "check_rate_limit env (run env (fst (check_rate_limit env rl ip path t)) evs) ip path' t'
          = (run env (fst (check_rate_limit env rl ip path t)) evs,
             Inl (Blocked ''Too many requests. Please try again later.'' (t + 3600)))"
    by (simp add: check_blocked)
qed

lemma run_append: "run env rl (xs @ ys) = run env (run env rl xs) ys"
  by (induction xs arbitrary: rl) auto

text \<open>
  A client whose requests all fall in one route class never has more recorded timestamps
  than the limit of the class, so the promotion at twice the limit is out of its reach.
\<close>

lemma one_class_step_not_blocked:
  assumes "blocked_ips rl ip = None"
      and "int (length (recorded rl ip)) \<le> fst (get_limit p)"
      and "\<forall>path' t'. ev = Req ip path' t' \<longrightarrow> get_limit path' = get_limit p"
  shows "blocked_ips (step env rl ev) ip = None"
proof (cases ev)
  case (Req ip' path' t')
  show ?thesis
  proof (cases "ip' = ip")
    case same: True
    show ?thesis
    proof (cases "env = ''development''")
      case True
      with Req assms(1) show ?thesis by (simp add: check_development)
    next
      case dev: False
      obtain L W where lw: "get_limit path' = (L, W)" by (cases "get_limit path'")
      from Req same assms(3) lw have p: "get_limit p = (L, W)" by simp
      from get_limit_pos[of p] p have pos: "0 < L" by simp
      have nb: "case blocked_ips rl ip of None \<Rightarrow> True | Some b \<Rightarrow> \<not> t' - b < 3600"
        by (simp add: assms(1))
      have "int (length (filter (\<lambda>x. t' - x < of_int W) (recorded rl ip)))
              \<le> int (length (recorded rl ip))"
        by simp
      moreover from assms(2) p have "int (length (recorded rl ip)) \<le> L" by simp
      ultimately
      have "int (length (filter (\<lambda>x. t' - x < of_int W) (recorded rl ip))) \<le> L"
        by (rule order_trans)
      with pos have "\<not> L * 2 \<le> int (length (filter (\<lambda>x. t' - x < of_int W) (recorded rl ip)))"
        by simp
      then show ?thesis
        using Req same by (simp add: check_unblocked[OF dev nb lw refl])
    qed
  next
    case False
    then have "ip \<noteq> ip'" by simp
    with Req assms(1) show ?thesis by (simp add: check_other_client(2))
  qed
next
  case (Cleanup t')
  with assms(1) show ?thesis by (simp add: cleanup_old_requests_def)
qed

lemma one_class_client_is_never_blocked:
  assumes "\<forall>ev \<in> set evs. \<forall>path' t'. ev = Req ip path' t' \<longrightarrow> get_limit path' = get_limit p"
  shows "blocked_ips (run env RateLimiter_init evs) ip = None"
proof -
  have "blocked_ips rl ip = None \<Longrightarrow> int (length (recorded rl ip)) \<le> fst (get_limit p) \<Longrightarrow>
        blocked_ips (run env rl evs) ip = None" for rl
    using assms
  proof (induction evs arbitrary: rl)
    case Nil
    then show ?case by simp
  next
    case (Cons ev evs)
    from Cons.prems have 1: "blocked_ips (step env rl ev) ip = None"
      by (intro one_class_step_not_blocked[where p = p]) auto
    from Cons.prems have 2: "int (length (recorded (step env rl ev) ip)) \<le> fst (get_limit p)"
      by (intro step_keeps_bound) auto
    from Cons.IH[OF 1 2] Cons.prems(3) show ?case by simp
  qed
  moreover have "blocked_ips RateLimiter_init ip = None"
    by (simp add: RateLimiter_init_def)
  moreover have "int (length (recorded RateLimiter_init ip)) \<le> fst (get_limit p)"
    using get_limit_pos[of p] by (simp add: RateLimiter_init_def recorded_def)
  ultimately show ?thesis by blast
qed

lemma filter_all: "(\<And>x. x \<in> set xs \<Longrightarrow> P x) \<Longrightarrow> filter P xs = xs"
  by (induction xs) auto

lemma burst_transactions_state:
  assumes "n \<le> 59"
  shows "recorded (run ''production'' RateLimiter_init (burst ip ''/api/v1/transactions'' n)) ip
           = map real [1..<Suc (min n 20)]
       \<and> blocked_ips (run ''production'' RateLimiter_init (burst ip ''/api/v1/transactions'' n)) ip
           = None"
  using assms
proof (induction n)
  case 0
  then show ?case by (simp add: RateLimiter_init_def recorded_def)
next
  case (Suc n)
  let ?rl = "run ''production'' RateLimiter_init (burst ip ''/api/v1/transactions'' n)"
  from Suc have r: "recorded ?rl ip = map real [1..<Suc (min n 20)]"
    and b: "blocked_ips ?rl ip = None" by simp_all
  have p: "''production'' \<noteq> ''development''" by simp
  have g: "get_limit ''/api/v1/transactions'' = (20, 60)" by (simp add: get_limit_def)
  have nb: "case blocked_ips ?rl ip of None \<Rightarrow> True | Some b \<Rightarrow> \<not> real (Suc n) - b < 3600"
    by (simp add: b)
  have k: "filter (\<lambda>x. real (Suc n) - x < of_int 60) (recorded ?rl ip) = recorded ?rl ip"
  proof (rule filter_all)
    fix x assume "x \<in> set (recorded ?rl ip)"
    then obtain j where "x = real j" "1 \<le> j" by (auto simp: r)
    with Suc.prems show "real (Suc n) - x < of_int 60" by simp
  qed
  have c: "check_rate_limit ''production'' ?rl ip ''/api/v1/transactions'' (real (Suc n)) =
             (if int (length (recorded ?rl ip)) \<ge> 20 then
                (if int (length (recorded ?rl ip)) \<ge> 20 * 2 then
                   (\<lparr>requests = (requests ?rl)(ip \<mapsto> recorded ?rl ip),
                     blocked_ips = (blocked_ips ?rl)(ip \<mapsto> real (Suc n))\<rparr>,
                    Inl (Blocked ''Rate limit exceeded. Your IP has been blocked.''
                                 (real (Suc n) + 3600)))
                 else
                   (\<lparr>requests = (requests ?rl)(ip \<mapsto> recorded ?rl ip),
                     blocked_ips = (blocked_ips ?rl)(ip := None)\<rparr>,
                    case recorded ?rl ip of [] \<Rightarrow> Inl IndexError
                    | first # _ \<Rightarrow> Inl (RateLimited (of_int 60 - (real (Suc n) - first)))))
              else
                (\<lparr>requests = (requests ?rl)(ip \<mapsto> recorded ?rl ip @ [real (Suc n)]),
                  blocked_ips = (blocked_ips ?rl)(ip := None)\<rparr>, Inr ()))"
    using check_unblocked[OF p nb g k[symmetric]] .
  have l: "length (recorded ?rl ip) = min n 20" by (simp add: r)
  have st: "run ''production'' RateLimiter_init (burst ip ''/api/v1/transactions'' (Suc n))
              = fst (check_rate_limit ''production'' ?rl ip ''/api/v1/transactions''
                       (real (Suc n)))"
    by (simp add: run_append)
  show ?case
  proof (cases "n < 20")
    case True
    then have m1: "min n 20 = n" and m2: "min (Suc n) 20 = Suc n" by simp_all
    from True
    have rec: "recorded (fst (check_rate_limit ''production'' ?rl ip ''/api/v1/transactions''
                 (real (Suc n)))) ip = map real [1..<Suc n] @ [real (Suc n)]"
      and bl: "blocked_ips (fst (check_rate_limit ''production'' ?rl ip ''/api/v1/transactions''
                 (real (Suc n)))) ip = None"
      unfolding c by (simp_all add: l m1 recorded_def r[unfolded recorded_def m1])
    have e: "map real [1..<Suc n] @ [real (Suc n)] = map real [1..<Suc (Suc n)]" by simp
    show ?thesis unfolding st m2 rec e bl by simp
  next
    case False
    then have m1: "min n 20 = 20" and m2: "min (Suc n) 20 = 20" by simp_all
    from False
    have rec: "recorded (fst (check_rate_limit ''production'' ?rl ip ''/api/v1/transactions''
                 (real (Suc n)))) ip = map real [1..<Suc 20]"
      and bl: "blocked_ips (fst (check_rate_limit ''production'' ?rl ip ''/api/v1/transactions''
                 (real (Suc n)))) ip = None"
      unfolding c by (simp_all add: l m1 recorded_def r[unfolded recorded_def m1])
    show ?thesis unfolding st m2 rec bl by simp
  qed
qed


text \<open>
  C2 at a client of one route class. A client sends 40 requests to the transactions
  endpoint (20 per 60 seconds) within 40 seconds. The governor records the first 20 and
  rejects the others without recording them, so the number of retained timestamps stays
  at the limit and never reaches twice the limit: the client is not entered in the block
  list, the 41st request is rejected with \<open>RateLimited\<close> and a retry-after of 20
  seconds, and a request at second 101 is admitted.
\<close>

theorem forty_transaction_requests_never_block:
  "recorded (run ''production'' RateLimiter_init (burst ''10.0.0.1'' ''/api/v1/transactions'' 40))
            ''10.0.0.1'' = map real [1..<21]
   \<and> blocked_ips (run ''production'' RateLimiter_init
                    (burst ''10.0.0.1'' ''/api/v1/transactions'' 40)) ''10.0.0.1'' = None
   \<and> snd (check_rate_limit ''production''
            (run ''production'' RateLimiter_init (burst ''10.0.0.1'' ''/api/v1/transactions'' 40))
            ''10.0.0.1'' ''/api/v1/transactions'' 41) = Inl (RateLimited 20)
   \<and> snd (check_rate_limit ''production''
            (run ''production'' RateLimiter_init (burst ''10.0.0.1'' ''/api/v1/transactions'' 40))
            ''10.0.0.1'' ''/api/v1/transactions'' 101) = Inr ()"
proof -
  let ?rl = "run ''production'' RateLimiter_init (burst ''10.0.0.1'' ''/api/v1/transactions'' 40)"
  have "(40::nat) \<le> 59" by simp
  from burst_transactions_state[OF this, of "''10.0.0.1''"]
  have r: "recorded ?rl ''10.0.0.1'' = map real [1..<21]"
    and b: "blocked_ips ?rl ''10.0.0.1'' = None" by simp_all
  have p: "''production'' \<noteq> ''development''" by simp
  have g: "get_limit ''/api/v1/transactions'' = (20, 60)" by (simp add: get_limit_def)
  have hd: "map real [1..<21] = 1 # map real [2..<21]"
    by (simp add: upt_conv_Cons)
  have nb41: "case blocked_ips ?rl ''10.0.0.1'' of None \<Rightarrow> True | Some b \<Rightarrow> \<not> 41 - b < 3600"
    by (simp add: b)
  have k41: "filter (\<lambda>x. 41 - x < of_int 60) (recorded ?rl ''10.0.0.1'') = map real [1..<21]"
    unfolding r
  proof (rule filter_all)
    fix x assume "x \<in> set (map real [1..<21])"
    then obtain j where "x = real j" "1 \<le> j" by auto
    then show "41 - x < of_int 60" by simp
  qed
  have l: "length (map real [1..<21]) = 20" by simp
  have 1: "snd (check_rate_limit ''production'' ?rl ''10.0.0.1'' ''/api/v1/transactions'' 41)
             = Inl (RateLimited 20)"
    unfolding check_unblocked[OF p nb41 g k41[symmetric]] l hd
    by simp
  have nb101: "case blocked_ips ?rl ''10.0.0.1'' of None \<Rightarrow> True | Some b \<Rightarrow> \<not> 101 - b < 3600"
    by (simp add: b)
  have k101: "filter (\<lambda>x. 101 - x < of_int 60) (recorded ?rl ''10.0.0.1'') = []"
    unfolding r filter_empty_conv
  proof
    fix x assume "x \<in> set (map real [1..<21])"
    then obtain j where "x = real j" "j < 21" by auto
    then show "\<not> 101 - x < of_int 60" by simp
  qed
  have 2: "snd (check_rate_limit ''production'' ?rl ''10.0.0.1'' ''/api/v1/transactions'' 101)
             = Inr ()"
    unfolding check_unblocked[OF p nb101 g k101[symmetric]] by simp
  from r b 1 2 show ?thesis by simp
qed

text \<open>
  The promotion to the block list is reached when the client mixes route classes: ten
  requests of the default class (limit 100) are all recorded, and the login request that
  follows finds ten timestamps against a limit of 5.
\<close>

lemma mixed_classes_reach_the_block:
  "snd (check_rate_limit ''production''
          (run ''production'' RateLimiter_init (burst ''10.0.0.1'' ''/api/v1/accounts'' 10))
          ''10.0.0.1'' ''/api/v1/auth/login'' 11)
     = Inl (Blocked ''Rate limit exceeded. Your IP has been blocked.'' 3611)"
  by (simp add: numeral_eq_Suc RateLimiter_init_def check_rate_limit_def recorded_def
                get_limit_def Let_def)

subsection \<open>Range of the risk score\<close>

lemma analyze_amount_many_rows:
  "length history > 1 \<Longrightarrow> analyze_amount amt history = Inl TypeError"
  by (auto simp: analyze_amount_def decimal_pow_float_def Let_def)

lemma analyze_amount_returns:
  assumes "analyze_amount amt history = Inr a"
  shows "(history = [] \<and> a = 0.5) \<or> (length history = 1 \<and> a = 0)"
proof (cases "history = []")
  case True
  with assms show ?thesis by (simp add: analyze_amount_def)
next
  case ne: False
  show ?thesis
  proof (cases "length history > 1")
    case True
    with assms show ?thesis by (simp add: analyze_amount_many_rows)
  next
    case False
    with ne have l: "length history = 1" by (cases history) auto
    with assms ne show ?thesis
      by (simp add: analyze_amount_def decimal_times_float_def Let_def split: if_splits)
  qed
qed

lemma analyze_frequency_range:
  "0 \<le> analyze_frequency d now uid \<and> analyze_frequency d now uid \<le> 1"
  by (simp add: analyze_frequency_def Let_def)

lemma analyze_device_range:
  "0 \<le> analyze_device d now uid dev \<and> analyze_device d now uid dev \<le> 0.9"
  by (simp add: analyze_device_def split: option.splits)

lemma analyze_patterns_range:
  "0 \<le> analyze_patterns now amt ty history \<and> analyze_patterns now amt ty history \<le> 1"
  by (simp add: analyze_patterns_def Let_def)

text \<open>Every score that \<open>analyze_transaction\<close> returns lies between 0 and 1.\<close>

lemma returned_score_in_unit_interval:
  assumes "analyze_transaction d now uid amt ty dev = Inr s"
  shows "0 \<le> s \<and> s \<le> 1"
proof -
  let ?h = "filter (\<lambda>t. user_id t = uid \<and> created_at t \<ge> now - 30 * 86400) (transactions d)"
  from assms obtain a where a: "analyze_amount amt ?h = Inr a"
    and s: "s = min (a * 0.3 + analyze_frequency d now uid * 0.2
                     + analyze_device d now uid dev * 0.25
                     + analyze_patterns now amt ty ?h * 0.25) 1"
    by (auto simp: analyze_transaction_def Let_def split: sum.splits)
  from analyze_amount_returns[OF a] have "0 \<le> a" by auto
  moreover have "0 \<le> analyze_frequency d now uid" using analyze_frequency_range by blast
  moreover have "0 \<le> analyze_device d now uid dev" using analyze_device_range by blast
  moreover have "0 \<le> analyze_patterns now amt ty ?h" using analyze_patterns_range by blast
  ultimately have "0 \<le> a * 0.3 + analyze_frequency d now uid * 0.2
                      + analyze_device d now uid dev * 0.25
                      + analyze_patterns now amt ty ?h * 0.25"
    by simp
  with s show ?thesis by simp
qed

text \<open>
  C9 at a history of two rows. The owner has two transactions in the last 30 days, of 40
  and of 25, and submits a withdrawal of 500. The scorer returns no score: the standard
  deviation is a \<open>Decimal\<close> raised to the float power \<open>0.5\<close>, and Python raises
  \<open>TypeError\<close>. A history of one row of 25 and a candidate of 50 fails at the product
  of a \<open>Decimal\<close> and \<open>0.8\<close>, and a history of one row of 0 and a candidate of 1
  divides by zero.
\<close>

theorem risk_score_not_returned:
  "analyze_transaction alice_history_db 3000 7 500 WITHDRAWAL unknown_device = Inl TypeError
   \<and> analyze_amount 500 [pending_payment, completed_deposit] = Inl TypeError
   \<and> analyze_amount 50 [completed_deposit] = Inl TypeError
   \<and> analyze_amount 1 [completed_deposit\<lparr>amount := 0\<rparr>] = Inl ZeroDivisionError"
proof -
  have 1: "analyze_amount 500 [pending_payment, completed_deposit] = Inl TypeError"
    by (simp add: analyze_amount_many_rows)
  have h: "filter (\<lambda>t. user_id t = 7 \<and> created_at t \<ge> 3000 - 30 * 86400)
                  (transactions alice_history_db) = [pending_payment, completed_deposit]"
    by (simp add: alice_history_db_def pending_payment_def completed_deposit_def)
  have 2: "analyze_transaction alice_history_db 3000 7 500 WITHDRAWAL unknown_device
             = Inl TypeError"
    unfolding analyze_transaction_def Let_def h 1 by simp
  have 3: "analyze_amount 50 [completed_deposit] = Inl TypeError"
    by (simp add: analyze_amount_def decimal_times_float_def completed_deposit_def)
  have 4: "analyze_amount 1 [completed_deposit\<lparr>amount := 0\<rparr>] = Inl ZeroDivisionError"
    by (simp add: analyze_amount_def)
  from 1 2 3 4 show ?thesis by simp
qed

subsection \<open>Fraud gate of the creation endpoint\<close>

lemma create_transaction_error_keeps_store:
  assumes "snd (create_transaction d now today nid ref td uid dev) = Inl e"
  shows "fst (create_transaction d now today nid ref td uid dev) = d"
proof (cases "find (\<lambda>a. acc_id a = tc_account_id td \<and> acc_user_id a = uid) (accounts d)")
  case None
  then show ?thesis by (simp add: create_transaction_def)
next
  case (Some a)
  show ?thesis
  proof (cases "acc_status a = ACTIVE")
    case False
    with Some show ?thesis by (simp add: create_transaction_def)
  next
    case True
    define t where "t = \<lparr>txn_id = nid, reference_id = ref, user_id = uid,
                    account_id = tc_account_id td,
                    txn_type = tc_type td, status = PENDING,
                    amount = tc_amount td, currency = acc_currency a,
                    recipient_account = tc_recipient_account td,
                    device_info = dev, risk_score = 0, created_at = now,
                    processed_at = None, failure_reason = None\<rparr>"
    define v where "v = validate_transaction_limits d today a t"
    define p where "p = (if txn_type t = WITHDRAWAL then process_withdrawal d now t a
                         else if txn_type t = DEPOSIT then process_deposit d now t a
                         else if txn_type t = TRANSFER then process_transfer d now t a
                         else Inr (d, t))"
    have c: "create_transaction d now today nid ref td uid dev =
               (case v of Inl e \<Rightarrow> (d, Inl e)
                | Inr _ \<Rightarrow> (case p of Inl e \<Rightarrow> (d, Inl e)
                            | Inr (d', t') \<Rightarrow> (d'\<lparr>transactions := transactions d' @ [t']\<rparr>, Inr t')))"
      unfolding create_transaction_def Let_def v_def p_def t_def
      using Some True by simp
    show ?thesis
      using assms unfolding c
      by (cases v; cases p) auto
  qed
qed

text \<open>
  The access to \<open>transaction_in.transaction_type\<close> fails on every request, before the
  scorer and the orchestrator are called.
\<close>

lemma endpoint_always_raises:
  "create_transaction_endpoint d now today nid ref td uid request = (d, Inl AttributeError)"
  by (simp add: create_transaction_endpoint_def transaction_type_attr_def)

text \<open>
  The scorer returns only for a history of the last 30 days that is empty or has one row
  not exceeded by the candidate amount, and then the score is at most 0.5: the threshold
  of 0.8 is out of reach of every score that is returned.
\<close>

lemma analyze_patterns_short_history:
  assumes "length history \<le> 2"
  shows "analyze_patterns now amt ty history \<le> 0.3"
proof -
  have "length (filter (\<lambda>t. txn_type t = ty \<and> created_at t \<ge> now - 300) history)
          \<le> length history"
    by (rule length_filter_le)
  with assms have "\<not> length (filter (\<lambda>t. txn_type t = ty \<and> created_at t \<ge> now - 300) history) > 2"
    by linarith
  then show ?thesis
    by (simp add: analyze_patterns_def Let_def)
qed

lemma returned_score_at_most_half:
  assumes "analyze_transaction d now uid amt ty dev = Inr s"
  shows "s \<le> 0.5"
proof -
  let ?h = "filter (\<lambda>t. user_id t = uid \<and> created_at t \<ge> now - 30 * 86400) (transactions d)"
  from assms obtain a where a: "analyze_amount amt ?h = Inr a"
    and s: "s = min (a * 0.3 + analyze_frequency d now uid * 0.2
                     + analyze_device d now uid dev * 0.25
                     + analyze_patterns now amt ty ?h * 0.25) 1"
    by (auto simp: analyze_transaction_def Let_def split: sum.splits)
  have dv: "analyze_device d now uid dev \<le> 0.9" using analyze_device_range by blast
  from analyze_amount_returns[OF a]
  show ?thesis
  proof
    assume e: "?h = [] \<and> a = 0.5"
    then have f: "analyze_frequency d now uid = 0"
      by (intro analyze_frequency_no_history) simp
    from e have p: "analyze_patterns now amt ty ?h \<le> 0.3"
      by (intro analyze_patterns_short_history) simp
    from e f dv p have "a * 0.3 + analyze_frequency d now uid * 0.2
                      + analyze_device d now uid dev * 0.25
                      + analyze_patterns now amt ty ?h * 0.25 \<le> 0.5"
      by simp
    with s show ?thesis by simp
  next
    assume e: "length ?h = 1 \<and> a = 0"
    have f: "analyze_frequency d now uid \<le> 1" using analyze_frequency_range by blast
    from e have p: "analyze_patterns now amt ty ?h \<le> 0.3"
      by (intro analyze_patterns_short_history) simp
    from e f dv p have "a * 0.3 + analyze_frequency d now uid * 0.2
                      + analyze_device d now uid dev * 0.25
                      + analyze_patterns now amt ty ?h * 0.25 \<le> 0.5"
      by simp
    with s show ?thesis by simp
  qed
qed

text \<open>
  C6 at a request that the scoring rules put above the threshold: three withdrawals in
  the last five minutes, a registered device whose fingerprint is not sent, and a
  withdrawal of 2000 (amount factor 1, frequency factor 1, device factor 0.9, pattern
  factor 0.4, weighted sum 0.825). The endpoint does not reject the request as
  fraudulent: it raises \<open>AttributeError\<close> when it reads
  \<open>transaction_in.transaction_type\<close>, and the scorer, called with the type of the
  request, raises \<open>TypeError\<close> on the history of three rows. The store is as it was.
\<close>

theorem fraud_gate_not_reached:
  "create_transaction_endpoint burst_db 10000 0 20 ''ref-20'' (withdrawal_request 2000) 7
     phone_request = (burst_db, Inl AttributeError)
   \<and> analyze_transaction burst_db 10000 7 (tc_amount (withdrawal_request 2000))
        (tc_type (withdrawal_request 2000)) (request_device_info phone_request)
       = Inl TypeError"
proof -
  have h: "filter (\<lambda>t. user_id t = 7 \<and> created_at t \<ge> 10000 - 30 * 86400)
                  (transactions burst_db)
             = [withdrawal_at 11 9900, withdrawal_at 12 9950, withdrawal_at 13 9990]"
    by (simp add: burst_db_def withdrawal_at_def)
  have a: "analyze_amount (tc_amount (withdrawal_request 2000))
              [withdrawal_at 11 9900, withdrawal_at 12 9950, withdrawal_at 13 9990]
             = Inl TypeError"
    by (simp add: analyze_amount_many_rows)
  have "analyze_transaction burst_db 10000 7 (tc_amount (withdrawal_request 2000))
          (tc_type (withdrawal_request 2000)) (request_device_info phone_request)
          = Inl TypeError"
    unfolding analyze_transaction_def Let_def h a by simp
  then show ?thesis by (simp add: endpoint_always_raises)
qed

end
